theory Spec2Isabelle
  imports Main
begin

section \<open>The document: the surface the style helpers write to\<close>

text \<open>
  The helpers of \<^verbatim>\<open>src/helpers.js\<close> (printed in the tutorial chapter
  \<^verbatim>\<open>content/creating-addons/react/en/decorators.md\<close>) work on the browser's
  \<^verbatim>\<open>document\<close> through the DOM operations \<^verbatim>\<open>getElementById\<close>, \<^verbatim>\<open>parentElement\<close>,
  \<^verbatim>\<open>removeChild\<close>, \<^verbatim>\<open>createElement\<close>, \<^verbatim>\<open>setAttribute\<close>, \<^verbatim>\<open>innerHTML\<close> (read and
  assigned) and \<^verbatim>\<open>document.head.appendChild\<close>. These members of \<^verbatim>\<open>document\<close> are taken
  to be the DOM's own: the documents considered hold no element that shadows them by
  name (as a form with \<^verbatim>\<open>name="head"\<close> would).

  The document tree is kept as the list of its nodes in tree order (a node, then its
  descendants, then its next sibling), each node with its depth: the document element
  comes first and has depth 0, its children have depth 1, and so on. The descendants of
  a node are the nodes that follow it for as long as they are deeper than it.

  A node has an identity (\<open>ref\<close>) and a kind: an element of the HTML namespace with its
  local name, an element of another namespace (SVG, MathML), a text node, or another
  node (a comment). Elements may carry an \<^verbatim>\<open>id\<close> attribute, text nodes carry their
  \<open>data\<close>. Nothing in the DOM keeps two elements from carrying the same \<^verbatim>\<open>id\<close>.
\<close>

datatype kind = HTMLElement string | OtherElement string | TextNode | OtherNode

record node =
  depth :: nat
  ref :: nat
  kind :: kind
  id_attr :: "string option"
  data :: string

text \<open>
  The changes made to the tree are recorded as they happen: a node inserted, a node
  removed, the children of an element replaced.
\<close>

datatype mutation = Inserted nat | Removed nat | ChildrenReplaced nat

text \<open>
  \<open>fresh\<close> is the identity that the next created node receives.
\<close>

record document =
  nodes :: "node list"
  fresh :: nat
  mutations :: "mutation list"

datatype error = TypeError | ReferenceError

text \<open>How a call ends: it returns, or it throws.\<close>

datatype completion = Normal | Throw error

type_synonym effect = "document \<Rightarrow> completion \<times> document"

definition html_node :: "nat \<Rightarrow> nat \<Rightarrow> string \<Rightarrow> string option \<Rightarrow> node" where
  "html_node dep r tag i = \<lparr>depth = dep, ref = r, kind = HTMLElement tag, id_attr = i, data = []\<rparr>"

definition text_node :: "nat \<Rightarrow> nat \<Rightarrow> string \<Rightarrow> node" where
  "text_node dep r t = \<lparr>depth = dep, ref = r, kind = TextNode, id_attr = None, data = t\<rparr>"

definition is_element :: "node \<Rightarrow> bool" where
  "is_element x =
     (case kind x of HTMLElement _ \<Rightarrow> True | OtherElement _ \<Rightarrow> True | _ \<Rightarrow> False)"

text \<open>
  A reference to an element of the document: the nodes before it, the element, its
  descendants, and the nodes after them.
\<close>

type_synonym located = "node list \<times> node \<times> node list \<times> node list"

definition locate :: "(node \<Rightarrow> bool) \<Rightarrow> node list \<Rightarrow> located option" where
  "locate P xs =
     (case dropWhile (\<lambda>x. \<not> P x) xs of
        [] \<Rightarrow> None
      | e # rest \<Rightarrow>
          Some (takeWhile (\<lambda>x. \<not> P x) xs, e,
                takeWhile (\<lambda>x. depth e < depth x) rest,
                dropWhile (\<lambda>x. depth e < depth x) rest))"

text \<open>
  The DOM gives an element an ID only when its \<^verbatim>\<open>id\<close> attribute is a non-empty string,
  and \<^verbatim>\<open>getElementById\<close> returns the first element in tree order whose ID is the
  argument, or \<^verbatim>\<open>null\<close>. So \<^verbatim>\<open>getElementById("")\<close> is always \<^verbatim>\<open>null\<close>, also when an
  element carries \<^verbatim>\<open>id=""\<close>.
\<close>

definition has_ID :: "string \<Rightarrow> node \<Rightarrow> bool" where
  "has_ID k x \<longleftrightarrow> is_element x \<and> k \<noteq> [] \<and> id_attr x = Some k"

definition getElementById :: "string \<Rightarrow> document \<Rightarrow> located option" where
  "getElementById k d = locate (has_ID k) (nodes d)"

text \<open>
  \<^verbatim>\<open>e.parentElement\<close>: the parent is the nearest node before \<open>e\<close> that is less deep. The
  document element has none (its parent is the document, which is no element), so for
  it \<^verbatim>\<open>parentElement\<close> is \<^verbatim>\<open>null\<close>.
\<close>

definition parentElement :: "located \<Rightarrow> node option" where
  "parentElement loc =
     (case loc of (pre, e, sub, post) \<Rightarrow> find (\<lambda>x. depth x < depth e) (rev pre))"

text \<open>
  \<^verbatim>\<open>parent.removeChild(e)\<close> takes \<open>e\<close> out of the tree, with its descendants. (The DOM
  throws when \<open>e\<close> is no child of \<open>parent\<close>; the helpers only call it on \<open>e\<close>'s own parent.)
\<close>

definition removeChild :: "located \<Rightarrow> document \<Rightarrow> document" where
  "removeChild loc d =
     (case loc of (pre, e, sub, post) \<Rightarrow>
        d\<lparr>nodes := pre @ post, mutations := mutations d @ [Removed (ref e)]\<rparr>)"

definition createElement :: "string \<Rightarrow> document \<Rightarrow> node \<times> document" where
  "createElement tag d = (html_node 0 (fresh d) tag None, d\<lparr>fresh := Suc (fresh d)\<rparr>)"

subsection \<open>innerHTML\<close>

text \<open>
  Assigning \<^verbatim>\<open>innerHTML\<close> runs the HTML fragment parser on the string and replaces the
  children of the element by the result; reading it serialises the children.

  For a \<^verbatim>\<open>style\<close> element of the HTML namespace the parser treats the whole string as
  raw text. It normalises line breaks on the way (CR LF and a lone CR become LF) and
  makes one text node of the result, or no node when the result is empty. Reading
  \<^verbatim>\<open>innerHTML\<close> of a \<^verbatim>\<open>style\<close> element whose children are text nodes gives their data,
  unescaped.

  What the parser makes of U+0000 (it writes U+FFFD, which is no 8-bit character), and
  what parsing and serialising do on any other element, where the string is markup, is
  the browser's business. It is a parameter of the model: \<open>rawtext_with_nul\<close> for a raw
  text with U+0000, \<open>read_markup\<close> for the serialised children of an element, and
  \<open>parse_markup\<close> for the nodes made of a string (with depths counted from 0 for the
  new children, and the first free identity as last argument).
\<close>

record browser =
  rawtext_with_nul :: "string \<Rightarrow> string"
  read_markup :: "located \<Rightarrow> string"
  parse_markup :: "located \<Rightarrow> string \<Rightarrow> nat \<Rightarrow> node list"

text \<open>
  \<open>after_cr\<close> says that the character before was a CR, so that an LF now belongs to
  the same line break.
\<close>

fun newlines :: "bool \<Rightarrow> string \<Rightarrow> string" where
  "newlines after_cr [] = []"
| "newlines after_cr (c # cs) =
     (if c = CHR 0x0D then CHR 0x0A # newlines True cs
      else if c = CHR 0x0A \<and> after_cr then newlines False cs
      else c # newlines False cs)"

definition normalise_newlines :: "string \<Rightarrow> string" where
  "normalise_newlines css = newlines False css"

definition raw_text :: "browser \<Rightarrow> string \<Rightarrow> string" where
  "raw_text B css =
     (if CHR 0x00 \<in> set css then rawtext_with_nul B css else normalise_newlines css)"

text \<open>A string that the raw text parser leaves as it is.\<close>

definition plain_text :: "string \<Rightarrow> bool" where
  "plain_text t \<longleftrightarrow> CHR 0x0D \<notin> set t \<and> CHR 0x00 \<notin> set t"

text \<open>A \<^verbatim>\<open>style\<close> element of the HTML namespace with nothing but text below it.\<close>

definition plain_style :: "located \<Rightarrow> bool" where
  "plain_style loc =
     (case loc of (pre, e, sub, post) \<Rightarrow>
        kind e = HTMLElement ''style'' \<and> list_all (\<lambda>x. kind x = TextNode) sub)"

definition read_innerHTML :: "browser \<Rightarrow> located \<Rightarrow> string" where
  "read_innerHTML B loc =
     (case loc of (pre, e, sub, post) \<Rightarrow>
        if plain_style loc then concat (map data sub) else read_markup B loc)"

definition text_children :: "nat \<Rightarrow> nat \<Rightarrow> string \<Rightarrow> node list" where
  "text_children dep r t = (if t = [] then [] else [text_node dep r t])"

text \<open>The nodes that an assignment of \<^verbatim>\<open>innerHTML\<close> puts below the element.\<close>

definition new_children :: "browser \<Rightarrow> located \<Rightarrow> string \<Rightarrow> nat \<Rightarrow> node list" where
  "new_children B loc css r =
     (case loc of (pre, e, sub, post) \<Rightarrow>
        if plain_style loc then text_children (Suc (depth e)) r (raw_text B css)
        else map (\<lambda>x. x\<lparr>depth := depth x + Suc (depth e)\<rparr>) (parse_markup B loc css r))"

text \<open>\<^verbatim>\<open>e.innerHTML = css\<close> on an element of the document.\<close>

definition assign_innerHTML :: "browser \<Rightarrow> located \<Rightarrow> string \<Rightarrow> document \<Rightarrow> document" where
  "assign_innerHTML B loc css d =
     (case loc of (pre, e, sub, post) \<Rightarrow>
        let new = new_children B loc css (fresh d)
        in d\<lparr>nodes := pre @ e # new @ post,
             fresh := fresh d + length new,
             mutations := mutations d @ [ChildrenReplaced (ref e)]\<rparr>)"

subsection \<open>document.head\<close>

text \<open>
  \<^verbatim>\<open>document.head\<close> is the first \<^verbatim>\<open>head\<close> element among the children of the document
  element when that is an \<^verbatim>\<open>html\<close> element, and \<^verbatim>\<open>null\<close> otherwise.
\<close>

definition head_element :: "document \<Rightarrow> located option" where
  "head_element d =
     (case nodes d of
        [] \<Rightarrow> None
      | r # rest \<Rightarrow>
          if kind r = HTMLElement ''html''
          then locate (\<lambda>x. depth x = Suc (depth r) \<and> kind x = HTMLElement ''head'') (nodes d)
          else None)"

text \<open>
  \<^verbatim>\<open>document.head.appendChild(e)\<close>, for a new element \<open>e\<close> with the nodes \<open>kids\<close> below it:
  reading \<^verbatim>\<open>appendChild\<close> from \<^verbatim>\<open>null\<close> throws a \<^verbatim>\<open>TypeError\<close>; otherwise \<open>e\<close> becomes the
  last child of the head.
\<close>

definition head_appendChild :: "node \<times> node list \<Rightarrow> effect" where
  "head_appendChild new d =
     (case new of (e, kids) \<Rightarrow>
        (case head_element d of
           None \<Rightarrow> (Throw TypeError, d)
         | Some (pre, h, sub, post) \<Rightarrow>
             (Normal,
              d\<lparr>nodes := pre @ h # sub @
                          map (\<lambda>x. x\<lparr>depth := depth x + Suc (depth h)\<rparr>) (e # kids) @ post,
                mutations := mutations d @ [Inserted (ref e)]\<rparr>)))"

section \<open>The helpers\<close>

text \<open>
  \<^verbatim>\<open>
  const clearStyle = selector => {
    const element = document.getElementById(selector);
    if (element && element.parentElement) {
      element.parentElement.removeChild(element);
    }
  };
  \<close>
\<close>

definition clearStyle :: "string \<Rightarrow> effect" where
  "clearStyle selector d =
     (case getElementById selector d of
        None \<Rightarrow> (Normal, d)
      | Some element \<Rightarrow>
          (case parentElement element of
             None \<Rightarrow> (Normal, d)
           | Some parent \<Rightarrow> (Normal, removeChild element d)))"

text \<open>
  \<^verbatim>\<open>
  export const clearStyles = selector => {
    const selectors = Array.isArray(selector) ? selector : [selector];
    selectors.forEach(clearStyle);
  };
  \<close>
  The argument is an array of keys or one key. \<open>forEach\<close> calls the function on each
  item in order and stops at the first call that throws.
\<close>

datatype selector_arg = Single string | Many "string list"

fun forEach :: "('a \<Rightarrow> effect) \<Rightarrow> 'a list \<Rightarrow> effect" where
  "forEach f [] d = (Normal, d)"
| "forEach f (x # xs) d =
     (case f x d of
        (Normal, d') \<Rightarrow> forEach f xs d'
      | (Throw e, d') \<Rightarrow> (Throw e, d'))"

definition clearStyles :: "selector_arg \<Rightarrow> effect" where
  "clearStyles selector d =
     (let selectors = (case selector of Many ks \<Rightarrow> ks | Single k \<Rightarrow> [k])
      in forEach clearStyle selectors d)"

text \<open>
  \<^verbatim>\<open>
  export const addOutlineStyles = (selector, css) => {
    const existingStyle = document.getElementById(selector);
    if (existingStyle) {
      if (existingStyle.innerHTML !== css) {
        existingStyle.innerHTML = css;
      }
    } else {
      const style = document.createElement('style');
      style.setAttribute('id', selector);
      style.innerHTML = css;
      document.head.appendChild(style);
    }
  };
  \<close>
  The new element is not in the document until it is appended: its attribute and its
  text are set on the element alone.
\<close>

definition addOutlineStyles :: "browser \<Rightarrow> string \<Rightarrow> string \<Rightarrow> effect" where
  "addOutlineStyles B selector css d =
     (case getElementById selector d of
        Some existingStyle \<Rightarrow>
          if read_innerHTML B existingStyle \<noteq> css
          then (Normal, assign_innerHTML B existingStyle css d)
          else (Normal, d)
      | None \<Rightarrow>
          (case createElement ''style'' d of
             (style0, d1) \<Rightarrow>
               let style = style0\<lparr>id_attr := Some selector\<rparr>;
                   kids = new_children B ([], style, [], []) css (fresh d1);
                   d2 = d1\<lparr>fresh := fresh d1 + length kids\<rparr>
               in head_appendChild (style, kids) d2))"

text \<open>Running one call after another; a throw ends the sequence.\<close>

definition seq :: "effect \<Rightarrow> effect \<Rightarrow> effect" where
  "seq f g d =
     (case f d of
        (Normal, d') \<Rightarrow> g d'
      | (Throw e, d') \<Rightarrow> (Throw e, d'))"

section \<open>Style blocks\<close>

text \<open>
  \<open>addOutlineStyles\<close> registers a block under a key by giving the element that key as its
  \<^verbatim>\<open>id\<close> attribute. The blocks registered under \<open>k\<close> are the elements of the document
  whose \<^verbatim>\<open>id\<close> attribute is \<open>k\<close>, in tree order.
\<close>

definition registered :: "string \<Rightarrow> node \<Rightarrow> bool" where
  "registered k x \<longleftrightarrow> is_element x \<and> id_attr x = Some k"

definition blocks :: "string \<Rightarrow> document \<Rightarrow> node list" where
  "blocks k d = filter (registered k) (nodes d)"

text \<open>
  The blocks under \<open>k\<close> that lie outside the first element with ID \<open>k\<close> and its
  descendants.
\<close>

definition later_blocks :: "string \<Rightarrow> document \<Rightarrow> node list" where
  "later_blocks k d =
     (case getElementById k d of
        None \<Rightarrow> []
      | Some (pre, e, sub, post) \<Rightarrow> filter (registered k) post)"

text \<open>The content of the block that \<^verbatim>\<open>getElementById\<close> finds under \<open>k\<close>.\<close>

definition content :: "browser \<Rightarrow> string \<Rightarrow> document \<Rightarrow> string option" where
  "content B k d = map_option (read_innerHTML B) (getElementById k d)"

text \<open>The element found under \<open>k\<close>, if there is one, is a \<^verbatim>\<open>style\<close> element holding text.\<close>

definition style_block :: "string \<Rightarrow> document \<Rightarrow> bool" where
  "style_block k d = (case getElementById k d of None \<Rightarrow> True | Some loc \<Rightarrow> plain_style loc)"

text \<open>The element found under \<open>k\<close>, if there is one, is not the document element.\<close>

definition removable :: "string \<Rightarrow> document \<Rightarrow> bool" where
  "removable k d =
     (case getElementById k d of None \<Rightarrow> True | Some loc \<Rightarrow> parentElement loc \<noteq> None)"

text \<open>At most one block under every key: no two elements share an \<^verbatim>\<open>id\<close> attribute.\<close>

definition unique_blocks :: "document \<Rightarrow> bool" where
  "unique_blocks d \<longleftrightarrow>
     distinct (map id_attr (filter (\<lambda>x. is_element x \<and> id_attr x \<noteq> None) (nodes d)))"

section \<open>The outline style sheet\<close>

text \<open>
  \<^verbatim>\<open>src/outlineCSS.js\<close> returns one template literal: for each of 99 tag names a rule
  \<^verbatim>\<open>${selector} tag { outline: 1px solid #colour !important; }\<close>, each on three lines
  with the literal's indentation. The rules are kept as a table of tag and colour.
\<close>

definition pesticide_rules :: "(string \<times> string) list" where
  "pesticide_rules = [
     (''body'', ''#2980b9''), (''article'', ''#3498db''), (''nav'', ''#0088c3''), (''aside'', ''#33a0ce''),
     (''section'', ''#66b8da''), (''header'', ''#99cfe7''), (''footer'', ''#cce7f3''), (''h1'', ''#162544''),
     (''h2'', ''#314e6e''), (''h3'', ''#3e5e85''), (''h4'', ''#449baf''), (''h5'', ''#c7d1cb''),
     (''h6'', ''#4371d0''), (''main'', ''#2f4f90''), (''address'', ''#1a2c51''), (''div'', ''#036cdb''),
     (''p'', ''#ac050b''), (''hr'', ''#ff063f''), (''pre'', ''#850440''), (''blockquote'', ''#f1b8e7''),
     (''ol'', ''#ff050c''), (''ul'', ''#d90416''), (''li'', ''#d90416''), (''dl'', ''#fd3427''),
     (''dt'', ''#ff0043''), (''dd'', ''#e80174''), (''figure'', ''#ff00bb''), (''figcaption'', ''#bf0032''),
     (''table'', ''#00cc99''), (''caption'', ''#37ffc4''), (''thead'', ''#98daca''), (''tbody'', ''#64a7a0''),
     (''tfoot'', ''#22746b''), (''tr'', ''#86c0b2''), (''th'', ''#a1e7d6''), (''td'', ''#3f5a54''),
     (''col'', ''#6c9a8f''), (''colgroup'', ''#6c9a9d''), (''button'', ''#da8301''), (''datalist'', ''#c06000''),
     (''fieldset'', ''#d95100''), (''form'', ''#d23600''), (''input'', ''#fca600''), (''keygen'', ''#b31e00''),
     (''label'', ''#ee8900''), (''legend'', ''#de6d00''), (''meter'', ''#e8630c''), (''optgroup'', ''#b33600''),
     (''option'', ''#ff8a00''), (''output'', ''#ff9619''), (''progress'', ''#e57c00''), (''select'', ''#e26e0f''),
     (''textarea'', ''#cc5400''), (''details'', ''#33848f''), (''summary'', ''#60a1a6''), (''command'', ''#438da1''),
     (''menu'', ''#449da6''), (''del'', ''#bf0000''), (''ins'', ''#400000''), (''img'', ''#22746b''),
     (''iframe'', ''#64a7a0''), (''embed'', ''#98daca''), (''object'', ''#00cc99''), (''param'', ''#37ffc4''),
     (''video'', ''#6ee866''), (''audio'', ''#027353''), (''source'', ''#012426''), (''canvas'', ''#a2f570''),
     (''track'', ''#59a600''), (''map'', ''#7be500''), (''area'', ''#305900''), (''a'', ''#ff62ab''),
     (''em'', ''#800b41''), (''strong'', ''#ff1583''), (''i'', ''#803156''), (''b'', ''#cc1169''),
     (''u'', ''#ff0430''), (''s'', ''#f805e3''), (''small'', ''#d107b2''), (''abbr'', ''#4a0263''),
     (''q'', ''#240018''), (''cite'', ''#64003c''), (''dfn'', ''#b4005a''), (''sub'', ''#dba0c8''),
     (''sup'', ''#cc0256''), (''time'', ''#d6606d''), (''code'', ''#e04251''), (''kbd'', ''#5e001f''),
     (''samp'', ''#9c0033''), (''var'', ''#d90047''), (''mark'', ''#ff0053''), (''bdi'', ''#bf3668''),
     (''bdo'', ''#6f1400''), (''ruby'', ''#ff7b93''), (''rt'', ''#ff2f54''), (''rp'', ''#803e49''),
     (''span'', ''#cc2643''), (''br'', ''#db687d''), (''wbr'', ''#db175b'')]"

definition newline :: string where
  "newline = [CHR 0x0A]"

text \<open>
  A template literal is a sequence of literal strings and substitutions
  \<^verbatim>\<open>${name}\<close>. The parts of one rule:
\<close>

datatype part = Lit string | Subst string

definition rule_parts :: "string \<times> string \<Rightarrow> part list" where
  "rule_parts r =
     [Lit (newline @ ''    ''), Subst ''selector'',
      Lit ('' '' @ fst r @ '' {'' @
           newline @ ''      outline: 1px solid '' @ snd r @ '' !important;'' @
           newline @ ''    }'')]"

definition outlineCSS_template :: "part list" where
  "outlineCSS_template = concat (map rule_parts pesticide_rules)"

text \<open>
  Evaluating a template in a scope, which binds names to strings: a literal part is
  itself, a substitution is the value of its name, and a name that the scope does not
  bind throws a \<^verbatim>\<open>ReferenceError\<close>.
\<close>

type_synonym text_scope = "(string \<times> string) list"

fun substitute :: "text_scope \<Rightarrow> part \<Rightarrow> error + string" where
  "substitute sc (Lit s) = Inr s"
| "substitute sc (Subst x) = (case map_of sc x of None \<Rightarrow> Inl ReferenceError | Some v \<Rightarrow> Inr v)"

fun eval_template :: "text_scope \<Rightarrow> part list \<Rightarrow> error + string" where
  "eval_template sc [] = Inr []"
| "eval_template sc (p # ps) =
     (case substitute sc p of
        Inl e \<Rightarrow> Inl e
      | Inr s \<Rightarrow> (case eval_template sc ps of Inl e \<Rightarrow> Inl e | Inr t \<Rightarrow> Inr (s @ t)))"

text \<open>
  \<^verbatim>\<open>export default function(selector) { return `...`; }\<close>: the call binds the parameter
  \<^verbatim>\<open>selector\<close> in front of the scope that surrounds the function, \<open>outer\<close>, and evaluates
  the template there.
\<close>

definition outlineCSS :: "text_scope \<Rightarrow> string \<Rightarrow> error + string" where
  "outlineCSS outer selector = eval_template ((''selector'', selector) # outer) outlineCSS_template"

text \<open>The text of the style sheet for a selector.\<close>

definition rule_text :: "string \<Rightarrow> string \<times> string \<Rightarrow> string" where
  "rule_text selector r =
     newline @ ''    '' @ selector @ '' '' @ fst r @ '' {'' @
     newline @ ''      outline: 1px solid '' @ snd r @ '' !important;'' @
     newline @ ''    }''"

definition outline_text :: "string \<Rightarrow> string" where
  "outline_text selector = concat (map (rule_text selector) pesticide_rules)"

section \<open>The decorator\<close>

text \<open>
  \<^verbatim>\<open>
  export const withGlobals = (StoryFn, context) => {
    const [{ outlineActive }, updateGlobals] = useGlobals();
    const isInDocs = context.viewMode === 'docs';
    const outlineStyles = useMemo(() => {
      const selector = isInDocs ? `#anchor--${context.id} .docs-story` : '.sb-show-main';
      return outlineCSS(selector);
    }, [context.id]);
    useEffect(() => {
      const selectorId = isInDocs ? `addon-outline-docs-${context.id}` : `addon-outline`;
      if (!isActive) {
        clearStyles(selectorId);
        return;
      }
      addOutlineStyles(selectorId, outlineStyles);
      return () => {
        clearStyles(selectorId);
      };
    }, [isActive, outlineStyles, context.id]);
  };
  \<close>
  The module declares \<^verbatim>\<open>outlineActive\<close> and \<^verbatim>\<open>isInDocs\<close>; \<^verbatim>\<open>isActive\<close> is declared
  nowhere in it, so the name is looked up in the global object. A name that is found
  nowhere throws a \<^verbatim>\<open>ReferenceError\<close>.

  The global object of a page holds, besides what scripts and the browser have put
  there (\<open>window\<close>, a parameter), every HTML element of the document with a non-empty
  \<^verbatim>\<open>id\<close> under that id. Values are kept by their truthiness; an element is truthy.
\<close>

record story_context =
  viewMode :: string
  story_id :: string

type_synonym scope = "(string \<times> bool) list"

definition named_element :: "string \<Rightarrow> document \<Rightarrow> bool" where
  "named_element x d \<longleftrightarrow>
     list_ex (\<lambda>n. has_ID x n \<and> (case kind n of HTMLElement _ \<Rightarrow> True | _ \<Rightarrow> False)) (nodes d)"

definition global_property :: "scope \<Rightarrow> document \<Rightarrow> string \<Rightarrow> bool option" where
  "global_property window d x =
     (case map_of window x of
        Some v \<Rightarrow> Some v
      | None \<Rightarrow> if named_element x d then Some True else None)"

definition read_identifier :: "scope \<Rightarrow> scope \<Rightarrow> document \<Rightarrow> string \<Rightarrow> error + bool" where
  "read_identifier sc window d x =
     (case map_of sc x of
        Some v \<Rightarrow> Inr v
      | None \<Rightarrow>
          (case global_property window d x of
             Some v \<Rightarrow> Inr v
           | None \<Rightarrow> Inl ReferenceError))"

definition isInDocs :: "story_context \<Rightarrow> bool" where
  "isInDocs ctx \<longleftrightarrow> viewMode ctx = ''docs''"

definition outlineStyles :: "story_context \<Rightarrow> error + string" where
  "outlineStyles ctx =
     outlineCSS [] (if isInDocs ctx then ''#anchor--'' @ story_id ctx @ '' .docs-story''
                    else ''.sb-show-main'')"

definition selectorId :: "story_context \<Rightarrow> string" where
  "selectorId ctx =
     (if isInDocs ctx then ''addon-outline-docs-'' @ story_id ctx else ''addon-outline'')"

definition withGlobals_scope :: "bool \<Rightarrow> story_context \<Rightarrow> scope" where
  "withGlobals_scope outlineActive ctx =
     [(''outlineActive'', outlineActive), (''isInDocs'', isInDocs ctx)]"

text \<open>The function passed to \<^verbatim>\<open>useEffect\<close>, with the memoised style text \<open>css\<close>.\<close>

definition outline_effect ::
  "browser \<Rightarrow> scope \<Rightarrow> scope \<Rightarrow> story_context \<Rightarrow> string \<Rightarrow> effect" where
  "outline_effect B sc window ctx css d =
     (case read_identifier sc window d ''isActive'' of
        Inl e \<Rightarrow> (Throw e, d)
      | Inr isActive \<Rightarrow>
          if \<not> isActive then clearStyles (Single (selectorId ctx)) d
          else addOutlineStyles B (selectorId ctx) css d)"

text \<open>
  One call of the decorator followed by its effect. The dependency array
  \<^verbatim>\<open>[isActive, outlineStyles, context.id]\<close> is evaluated in the call itself, before the
  effect is registered.
\<close>

definition withGlobals :: "browser \<Rightarrow> scope \<Rightarrow> bool \<Rightarrow> story_context \<Rightarrow> effect" where
  "withGlobals B window outlineActive ctx d =
     (case outlineStyles ctx of
        Inl e \<Rightarrow> (Throw e, d)
      | Inr css \<Rightarrow>
          let sc = withGlobals_scope outlineActive ctx in
          (case read_identifier sc window d ''isActive'' of
             Inl e \<Rightarrow> (Throw e, d)
           | Inr _ \<Rightarrow> outline_effect B sc window ctx css d))"

section \<open>Documents and a browser used as concrete inputs\<close>

text \<open>
  A browser for the runs below. The documents of these runs hold elements with no
  attribute but \<^verbatim>\<open>id\<close>, and the strings assigned are \<^verbatim>\<open>a\<close>, \<^verbatim>\<open>b\<close>, \<^verbatim>\<open>u>v\<close> and
  \<^verbatim>\<open><p id=j>t</p>\<close>, on a \<^verbatim>\<open>div\<close> or on the \<^verbatim>\<open>html\<close> element. For these the fragment
  parser makes one text node of a string without markup and a \<^verbatim>\<open>p\<close> element holding
  the text \<^verbatim>\<open>t\<close> of the last string; on the \<^verbatim>\<open>html\<close> element it first makes a \<^verbatim>\<open>head\<close>
  and a \<^verbatim>\<open>body\<close> and puts the rest into the body. Serialising writes an element as its
  start tag with the \<^verbatim>\<open>id\<close>, its children and its end tag, and a text with \<^verbatim>\<open>&\<close>, \<^verbatim>\<open><\<close>
  and \<^verbatim>\<open>>\<close> escaped unless its parent is a \<^verbatim>\<open>style\<close> element. No string of these runs
  holds U+0000, so \<open>rawtext_with_nul\<close> is never used.
\<close>

fun escape :: "string \<Rightarrow> string" where
  "escape [] = []"
| "escape (c # cs) =
     (if c = CHR ''&'' then ''&amp;'' @ escape cs
      else if c = CHR ''<'' then ''&lt;'' @ escape cs
      else if c = CHR ''>'' then ''&gt;'' @ escape cs
      else c # escape cs)"

text \<open>The end tags of the open elements that are not above depth \<open>dep\<close>, and the rest.\<close>

fun close_tags :: "(nat \<times> string) list \<Rightarrow> nat \<Rightarrow> string \<times> (nat \<times> string) list" where
  "close_tags [] dep = ([], [])"
| "close_tags ((d, tag) # st) dep =
     (if dep \<le> d
      then (case close_tags st dep of (s, st') \<Rightarrow> (''</'' @ tag @ ''>'' @ s, st'))
      else ([], (d, tag) # st))"

definition start_tag :: "string \<Rightarrow> string option \<Rightarrow> string" where
  "start_tag tag i =
     ''<'' @ tag @
     (case i of None \<Rightarrow> [] | Some v \<Rightarrow> '' id='' @ [CHR 0x22] @ v @ [CHR 0x22]) @ ''>''"

fun serialise :: "(nat \<times> string) list \<Rightarrow> node list \<Rightarrow> string" where
  "serialise st [] = fst (close_tags st 0)"
| "serialise st (x # xs) =
     (case close_tags st (depth x) of
        (s, st') \<Rightarrow>
          s @
          (case kind x of
             HTMLElement tag \<Rightarrow> start_tag tag (id_attr x) @ serialise ((depth x, tag) # st') xs
           | OtherElement tag \<Rightarrow> start_tag tag (id_attr x) @ serialise ((depth x, tag) # st') xs
           | TextNode \<Rightarrow>
               (if (case st' of [] \<Rightarrow> False | (d, tag) # _ \<Rightarrow> tag = ''style'')
                then data x else escape (data x)) @ serialise st' xs
           | OtherNode \<Rightarrow> serialise st' xs))"

definition parse_example :: "string \<Rightarrow> nat \<Rightarrow> nat \<Rightarrow> node list" where
  "parse_example css dep r =
     (if css = ''<p id=j>t</p>''
      then [html_node dep r ''p'' (Some ''j''), text_node (Suc dep) (Suc r) ''t'']
      else text_children dep r css)"

definition example_browser :: browser where
  "example_browser =
     \<lparr>rawtext_with_nul = normalise_newlines,
      read_markup = (\<lambda>loc. case loc of (pre, e, sub, post) \<Rightarrow> serialise [] sub),
      parse_markup = (\<lambda>loc css r. case loc of (pre, e, sub, post) \<Rightarrow>
        if kind e = HTMLElement ''html''
        then html_node 0 r ''head'' None # html_node 0 (Suc r) ''body'' None #
             parse_example css 1 (Suc (Suc r))
        else parse_example css 0 r)\<rparr>"

text \<open>A document with an empty head and an empty body.\<close>

definition empty_document :: document where
  "empty_document =
     \<lparr>nodes = [html_node 0 0 ''html'' None, html_node 1 1 ''head'' None,
               html_node 1 2 ''body'' None],
      fresh = 3, mutations = []\<rparr>"

text \<open>A document whose head already holds two \<^verbatim>\<open>style\<close> elements with the same id.\<close>

definition two_blocks_document :: document where
  "two_blocks_document =
     \<lparr>nodes = [html_node 0 0 ''html'' None, html_node 1 1 ''head'' None,
               html_node 2 3 ''style'' (Some ''k''), text_node 3 4 ''x'',
               html_node 2 5 ''style'' (Some ''k''), text_node 3 6 ''y'',
               html_node 1 2 ''body'' None],
      fresh = 7, mutations = []\<rparr>"

text \<open>A document without a head element: \<^verbatim>\<open>document.head\<close> is \<^verbatim>\<open>null\<close>.\<close>

definition headless_document :: document where
  "headless_document =
     \<lparr>nodes = [html_node 0 0 ''html'' None, html_node 1 1 ''body'' None],
      fresh = 2, mutations = []\<rparr>"

text \<open>A document without a head that holds a \<^verbatim>\<open>style\<close> element with id \<^verbatim>\<open>k\<close> in its body.\<close>

definition headless_block_document :: document where
  "headless_block_document =
     \<lparr>nodes = [html_node 0 0 ''html'' None, html_node 1 1 ''body'' None,
               html_node 2 2 ''style'' (Some ''k''), text_node 3 3 ''x''],
      fresh = 4, mutations = []\<rparr>"

text \<open>
  The document that \<open>addOutlineStyles\<close> with the empty key and the text \<^verbatim>\<open>a\<close> makes of the
  empty document: the head holds a \<^verbatim>\<open>style\<close> element with \<^verbatim>\<open>id=""\<close>.
\<close>

definition empty_key_document :: document where
  "empty_key_document =
     \<lparr>nodes = [html_node 0 0 ''html'' None, html_node 1 1 ''head'' None,
               html_node 2 3 ''style'' (Some []), text_node 3 4 ''a'',
               html_node 1 2 ''body'' None],
      fresh = 5, mutations = [Inserted 3]\<rparr>"

text \<open>A document whose document element carries the id \<^verbatim>\<open>k\<close>: \<^verbatim>\<open><html id="k">\<close>.\<close>

definition root_block_document :: document where
  "root_block_document =
     \<lparr>nodes = [html_node 0 0 ''html'' (Some ''k''), html_node 1 1 ''head'' None,
               html_node 1 2 ''body'' None],
      fresh = 3, mutations = []\<rparr>"

text \<open>
  A document whose body holds \<^verbatim>\<open><div id="k"><span id="j"></span></div>\<close>, and whose head
  holds a \<^verbatim>\<open>style\<close> element with id \<^verbatim>\<open>j\<close> in the second one.
\<close>

definition div_block_document :: document where
  "div_block_document =
     \<lparr>nodes = [html_node 0 0 ''html'' None, html_node 1 1 ''head'' None,
               html_node 1 2 ''body'' None,
               html_node 2 3 ''div'' (Some ''k''), html_node 3 4 ''span'' (Some ''j'')],
      fresh = 5, mutations = []\<rparr>"

definition div_and_style_document :: document where
  "div_and_style_document =
     \<lparr>nodes = [html_node 0 0 ''html'' None, html_node 1 1 ''head'' None,
               html_node 2 3 ''style'' (Some ''j''),
               html_node 1 2 ''body'' None,
               html_node 2 4 ''div'' (Some ''k'')],
      fresh = 5, mutations = []\<rparr>"

section \<open>Auxiliary notions\<close>

text \<open>The \<^verbatim>\<open>style\<close> element that \<open>addOutlineStyles\<close> creates, with its text node.\<close>

definition new_style :: "browser \<Rightarrow> string \<Rightarrow> string \<Rightarrow> nat \<Rightarrow> nat \<Rightarrow> node list" where
  "new_style B k t dep r =
     html_node dep r ''style'' (Some k) # text_children (Suc dep) (Suc r) (raw_text B t)"

text \<open>
  Every block under \<open>k\<close> lies below the first node of the document, the document
  element: none of them is the document element itself.
\<close>

definition inner_blocks :: "string \<Rightarrow> document \<Rightarrow> bool" where
  "inner_blocks k d = list_all (\<lambda>x. depth (hd (nodes d)) < depth x) (blocks k d)"

section \<open>How the DOM operations act on the list of nodes\<close>

lemma dropWhile_ConsD: "dropWhile Q xs = y # ys \<Longrightarrow> \<not> Q y \<and> y \<in> set xs"
  by (induction xs) (auto split: if_splits)

lemma locate_None_iff: "locate P xs = None \<longleftrightarrow> (\<forall>x\<in>set xs. \<not> P x)"
  by (auto simp: locate_def dropWhile_eq_Nil_conv split: list.splits dest: dropWhile_ConsD)

lemma locate_SomeD:
  assumes "locate P xs = Some (pre, e, sub, post)"
  shows "xs = pre @ e # sub @ post" and "P e" and "\<forall>x\<in>set pre. \<not> P x"
    and "\<forall>x\<in>set sub. depth e < depth x"
    and "case post of [] \<Rightarrow> True | p # _ \<Rightarrow> \<not> depth e < depth p"
proof -
  from assms obtain rest where d: "dropWhile (\<lambda>x. \<not> P x) xs = e # rest"
    and pre: "pre = takeWhile (\<lambda>x. \<not> P x) xs"
    and sub: "sub = takeWhile (\<lambda>x. depth e < depth x) rest"
    and post: "post = dropWhile (\<lambda>x. depth e < depth x) rest"
    by (auto simp: locate_def split: list.splits)
  have "xs = takeWhile (\<lambda>x. \<not> P x) xs @ dropWhile (\<lambda>x. \<not> P x) xs" by simp
  also have "\<dots> = pre @ e # sub @ post" unfolding d pre sub post by simp
  finally show "xs = pre @ e # sub @ post" .
  from d show "P e" by (auto dest: dropWhile_ConsD)
  show "\<forall>x\<in>set pre. \<not> P x" unfolding pre by (auto dest: set_takeWhileD)
  show "\<forall>x\<in>set sub. depth e < depth x" unfolding sub by (auto dest: set_takeWhileD)
  show "case post of [] \<Rightarrow> True | p # _ \<Rightarrow> \<not> depth e < depth p"
    unfolding post by (auto split: list.splits dest: dropWhile_ConsD)
qed

lemma locate_rebuild:
  assumes "\<forall>x\<in>set pre. \<not> P x" and "P e" and "\<forall>x\<in>set sub. depth e < depth x"
    and "case post of [] \<Rightarrow> True | p # _ \<Rightarrow> \<not> depth e < depth p"
  shows "locate P (pre @ e # sub @ post) = Some (pre, e, sub, post)"
proof -
  have t: "takeWhile (\<lambda>x. \<not> P x) (pre @ e # sub @ post) = pre"
    using assms(1,2) by simp
  have d: "dropWhile (\<lambda>x. \<not> P x) (pre @ e # sub @ post) = e # sub @ post"
    using assms(1,2) by (simp add: dropWhile_append2)
  have t2: "takeWhile (\<lambda>x. depth e < depth x) (sub @ post) = sub"
    using assms(3,4) by (cases post) simp_all
  have d2: "dropWhile (\<lambda>x. depth e < depth x) (sub @ post) = post"
    using assms(3,4) by (cases post) (simp_all add: dropWhile_append2)
  show ?thesis by (simp add: locate_def t d t2 d2)
qed

lemma has_ID_registered: "k \<noteq> [] \<Longrightarrow> has_ID k = registered k"
  by (auto simp: has_ID_def registered_def fun_eq_iff)

lemma getElementById_empty: "getElementById [] d = None"
  by (simp add: getElementById_def locate_None_iff has_ID_def)

lemma getElementById_None_iff:
  "k \<noteq> [] \<Longrightarrow> getElementById k d = None \<longleftrightarrow> blocks k d = []"
  by (simp add: getElementById_def locate_None_iff has_ID_registered blocks_def filter_empty_conv)

lemma getElementById_SomeD:
  assumes "getElementById k d = Some (pre, e, sub, post)"
  shows "k \<noteq> []" and "registered k e" and "nodes d = pre @ e # sub @ post"
    and "filter (registered k) pre = []"
    and "\<forall>x\<in>set sub. depth e < depth x"
    and "case post of [] \<Rightarrow> True | p # _ \<Rightarrow> \<not> depth e < depth p"
    and "\<forall>x\<in>set pre. \<not> has_ID k x"
proof -
  show k: "k \<noteq> []" using assms getElementById_empty by (cases k) auto
  from assms have l: "locate (has_ID k) (nodes d) = Some (pre, e, sub, post)"
    by (simp add: getElementById_def)
  from locate_SomeD(2) [OF l] k show "registered k e" by (simp add: has_ID_registered)
  show "nodes d = pre @ e # sub @ post" by (rule locate_SomeD(1) [OF l])
  from locate_SomeD(3) [OF l] k show "filter (registered k) pre = []"
    by (simp add: has_ID_registered filter_empty_conv)
  show "\<forall>x\<in>set sub. depth e < depth x" by (rule locate_SomeD(4) [OF l])
  show "case post of [] \<Rightarrow> True | p # _ \<Rightarrow> \<not> depth e < depth p" by (rule locate_SomeD(5) [OF l])
  show "\<forall>x\<in>set pre. \<not> has_ID k x" by (rule locate_SomeD(3) [OF l])
qed

lemma blocks_split:
  assumes "getElementById k d = Some (pre, e, sub, post)"
  shows "blocks k d = e # filter (registered k) sub @ later_blocks k d"
    and "blocks k' d = filter (registered k') pre @ filter (registered k') (e # sub) @
           filter (registered k') post"
  using getElementById_SomeD(2,3,4) [OF assms] assms
  by (simp_all add: blocks_def later_blocks_def)

lemma getElementById_rebuild:
  assumes "getElementById k d = Some (pre, e, sub, post)"
    and "\<forall>x\<in>set new. depth e < depth x"
    and "nodes d' = pre @ e # new @ post"
  shows "getElementById k d' = Some (pre, e, new, post)"
proof -
  from assms(1) have l: "locate (has_ID k) (nodes d) = Some (pre, e, sub, post)"
    by (simp add: getElementById_def)
  show ?thesis
    unfolding getElementById_def assms(3)
    by (rule locate_rebuild [OF locate_SomeD(3) [OF l] locate_SomeD(2) [OF l] assms(2)
          locate_SomeD(5) [OF l]])
qed

subsection \<open>clearStyle\<close>

lemma fst_clearStyle: "fst (clearStyle k d) = Normal"
  by (simp add: clearStyle_def split: option.splits)


lemma clearStyle_absent: "getElementById k d = None \<Longrightarrow> clearStyle k d = (Normal, d)"
  by (simp add: clearStyle_def)

lemma clearStyle_root:
  "getElementById k d = Some loc \<Longrightarrow> parentElement loc = None \<Longrightarrow> clearStyle k d = (Normal, d)"
  by (simp add: clearStyle_def)

lemma clearStyle_removes:
  "getElementById k d = Some (pre, e, sub, post) \<Longrightarrow> parentElement (pre, e, sub, post) \<noteq> None \<Longrightarrow>
   clearStyle k d =
     (Normal, d\<lparr>nodes := pre @ post, mutations := mutations d @ [Removed (ref e)]\<rparr>)"
  by (auto simp: clearStyle_def removeChild_def)

lemma clearStyles_Single: "clearStyles (Single k) d = clearStyle k d"
  using fst_clearStyle [of k d]
  by (cases "clearStyle k d") (auto simp: clearStyles_def split: completion.splits)

lemma forEach_clearStyle:
  "forEach clearStyle ks d = (Normal, fold (\<lambda>k s. snd (clearStyle k s)) ks d)"
proof (induction ks arbitrary: d)
  case Nil
  then show ?case by simp
next
  case (Cons k ks)
  obtain d' where d': "clearStyle k d = (Normal, d')"
    using fst_clearStyle [of k d] by (cases "clearStyle k d") simp
  with Cons [of d'] show ?case by simp
qed


text \<open>A call of \<open>clearStyle\<close> only takes nodes away.\<close>

lemma blocks_clearStyle_le:
  "length (blocks k' (snd (clearStyle k d))) \<le> length (blocks k' d)"
proof (cases "getElementById k d")
  case None
  then show ?thesis by (simp add: clearStyle_absent)
next
  case (Some loc)
  obtain pre e sub post where loc: "loc = (pre, e, sub, post)" by (cases loc) auto
  show ?thesis
  proof (cases "parentElement loc")
    case None
    with Some show ?thesis by (simp add: clearStyle_root)
  next
    case P: (Some p)
    with Some loc have "clearStyle k d =
      (Normal, d\<lparr>nodes := pre @ post, mutations := mutations d @ [Removed (ref e)]\<rparr>)"
      by (simp add: clearStyle_removes)
    moreover have "nodes d = pre @ e # sub @ post"
      using getElementById_SomeD(3) Some loc by blast
    ultimately show ?thesis by (simp add: blocks_def le_Suc_eq trans_le_add2)
  qed
qed

lemma blocks_clearStyle_removed:
  assumes "getElementById k d = Some loc" and "parentElement loc \<noteq> None"
  shows "blocks k (snd (clearStyle k d)) = later_blocks k d"
proof -
  obtain pre e sub post where loc: "loc = (pre, e, sub, post)" by (cases loc) auto
  from assms loc have "clearStyle k d =
      (Normal, d\<lparr>nodes := pre @ post, mutations := mutations d @ [Removed (ref e)]\<rparr>)"
    by (simp add: clearStyle_removes)
  moreover have "filter (registered k) pre = []"
    using getElementById_SomeD(4) assms(1) loc by blast
  ultimately show ?thesis using assms(1) loc by (simp add: blocks_def later_blocks_def)
qed

subsection \<open>addOutlineStyles\<close>

lemma newlines_plain: "CHR 0x0D \<notin> set t \<Longrightarrow> newlines False t = t"
  by (induction t) auto

lemma raw_text_plain: "plain_text t \<Longrightarrow> raw_text B t = t"
  by (simp add: plain_text_def raw_text_def normalise_newlines_def newlines_plain)

lemma data_text_children: "concat (map data (text_children dep r t)) = t"
  by (simp add: text_children_def text_node_def)

lemma kind_text_children: "list_all (\<lambda>x. kind x = TextNode) (text_children dep r t)"
  by (simp add: text_children_def text_node_def)

lemma not_registered_text: "kind x = TextNode \<Longrightarrow> \<not> registered k x"
  by (simp add: registered_def is_element_def)

lemma filter_registered_text:
  "list_all (\<lambda>x. kind x = TextNode) xs \<Longrightarrow> filter (registered k) xs = []"
  by (induction xs) (auto simp: not_registered_text)

lemma new_children_deeper:
  "\<forall>x\<in>set (new_children B (pre, e, sub, post) css r). depth e < depth x"
  by (auto simp: new_children_def text_children_def text_node_def)

lemma new_children_plain:
  "plain_style (pre, e, sub, post) \<Longrightarrow>
   new_children B (pre, e, sub, post) css r = text_children (Suc (depth e)) r (raw_text B css)"
  by (simp add: new_children_def)

lemma addOutlineStyles_found:
  "getElementById k d = Some loc \<Longrightarrow>
   addOutlineStyles B k t d =
     (Normal, if read_innerHTML B loc \<noteq> t then assign_innerHTML B loc t d else d)"
  by (simp add: addOutlineStyles_def)

lemma head_element_SomeD:
  assumes "head_element d = Some (pre, h, sub, post)"
  shows "nodes d = pre @ h # sub @ post"
    and "case post of [] \<Rightarrow> True | p # _ \<Rightarrow> \<not> depth h < depth p"
proof -
  from assms obtain P where l: "locate P (nodes d) = Some (pre, h, sub, post)"
    by (auto simp: head_element_def split: list.splits if_splits)
  show "nodes d = pre @ h # sub @ post" by (rule locate_SomeD(1) [OF l])
  show "case post of [] \<Rightarrow> True | p # _ \<Rightarrow> \<not> depth h < depth p"
    by (rule locate_SomeD(5) [OF l])
qed

lemma head_element_cong: "nodes d' = nodes d \<Longrightarrow> head_element d' = head_element d"
  unfolding head_element_def by (auto split: list.splits)

lemma head_appendChild_Some:
  "head_element d = Some (pre, h, sub, post) \<Longrightarrow>
   head_appendChild (e, kids) d =
     (Normal,
      d\<lparr>nodes := pre @ h # sub @
                  map (\<lambda>x. x\<lparr>depth := depth x + Suc (depth h)\<rparr>) (e # kids) @ post,
        mutations := mutations d @ [Inserted (ref e)]\<rparr>)"
  by (simp add: head_appendChild_def)

lemma head_appendChild_None:
  "head_element d = None \<Longrightarrow> head_appendChild new d = (Throw TypeError, d)"
  by (cases new) (simp add: head_appendChild_def)

lemma detached_children:
  "new_children B ([], html_node 0 r ''style'' None\<lparr>id_attr := Some k\<rparr>, [], []) t r' =
     text_children (Suc 0) r' (raw_text B t)"
  by (simp add: new_children_def plain_style_def html_node_def)

lemma length_text_children: "length (text_children dep r t) = length (text_children 0 0 t)"
  by (simp add: text_children_def)

lemma addOutlineStyles_new:
  assumes "getElementById k d = None" and "head_element d = Some (pre, h, sub, post)"
  shows "addOutlineStyles B k t d =
     (Normal,
      d\<lparr>nodes := pre @ h # sub @ new_style B k t (Suc (depth h)) (fresh d) @ post,
        fresh := Suc (fresh d) + length (text_children 0 0 (raw_text B t)),
        mutations := mutations d @ [Inserted (fresh d)]\<rparr>)"
proof -
  let ?d2 = "d\<lparr>fresh := Suc (fresh d),
               fresh := Suc (fresh d) + length (text_children (Suc 0) (Suc (fresh d)) (raw_text B t))\<rparr>"
  have h: "head_element ?d2 = Some (pre, h, sub, post)"
    using assms(2) head_element_cong [of ?d2 d] by simp
  have "addOutlineStyles B k t d =
      head_appendChild (html_node 0 (fresh d) ''style'' None\<lparr>id_attr := Some k\<rparr>,
        text_children (Suc 0) (Suc (fresh d)) (raw_text B t)) ?d2"
    using assms(1) by (simp add: addOutlineStyles_def createElement_def detached_children Let_def)
  then show ?thesis
    unfolding head_appendChild_Some [OF h]
    by (simp add: new_style_def html_node_def text_children_def text_node_def)
qed

lemma addOutlineStyles_throw:
  assumes "getElementById k d = None" and "head_element d = None"
  shows "addOutlineStyles B k t d =
     (Throw TypeError, d\<lparr>fresh := Suc (fresh d) + length (text_children 0 0 (raw_text B t))\<rparr>)"
proof -
  let ?d2 = "d\<lparr>fresh := Suc (fresh d),
               fresh := Suc (fresh d) + length (text_children (Suc 0) (Suc (fresh d)) (raw_text B t))\<rparr>"
  have h: "head_element ?d2 = None"
    using assms(2) head_element_cong [of ?d2 d] by simp
  have "addOutlineStyles B k t d =
      head_appendChild (html_node 0 (fresh d) ''style'' None\<lparr>id_attr := Some k\<rparr>,
        text_children (Suc 0) (Suc (fresh d)) (raw_text B t)) ?d2"
    using assms(1) by (simp add: addOutlineStyles_def createElement_def detached_children Let_def)
  then show ?thesis
    unfolding head_appendChild_None [OF h]
    by (simp add: text_children_def)
qed

lemma fst_addOutlineStyles:
  "fst (addOutlineStyles B k t d) =
     (if getElementById k d = None \<and> head_element d = None then Throw TypeError else Normal)"
proof (cases "getElementById k d")
  case None
  show ?thesis
  proof (cases "head_element d")
    case N: None
    with None show ?thesis by (simp add: addOutlineStyles_throw)
  next
    case (Some loc)
    obtain pre h sub post where "loc = (pre, h, sub, post)" by (cases loc) auto
    with None Some show ?thesis by (simp add: addOutlineStyles_new)
  qed
next
  case (Some loc)
  then show ?thesis by (simp add: addOutlineStyles_found)
qed

lemma plain_style_sub:
  "plain_style (pre, e, sub, post) \<longleftrightarrow>
     kind e = HTMLElement ''style'' \<and> list_all (\<lambda>x. kind x = TextNode) sub"
  by (simp add: plain_style_def)

lemma read_plain:
  "plain_style (pre, e, sub, post) \<Longrightarrow> read_innerHTML B (pre, e, sub, post) = concat (map data sub)"
  by (simp add: read_innerHTML_def)

lemma nodes_assign:
  "nodes (assign_innerHTML B (pre, e, sub, post) t d) =
     pre @ e # new_children B (pre, e, sub, post) t (fresh d) @ post"
  by (simp add: assign_innerHTML_def Let_def)

text \<open>Writing into a style element that holds text.\<close>

lemma addOutlineStyles_found_plain:
  assumes g: "getElementById k d = Some (pre, e, sub, post)"
    and p: "plain_style (pre, e, sub, post)"
  shows "\<exists>new. getElementById k (snd (addOutlineStyles B k t d)) = Some (pre, e, new, post) \<and>
           list_all (\<lambda>x. kind x = TextNode) new \<and>
           concat (map data new) =
             (if read_innerHTML B (pre, e, sub, post) = t then t else raw_text B t)"
proof (cases "read_innerHTML B (pre, e, sub, post) = t")
  case True
  with g have "snd (addOutlineStyles B k t d) = d" by (simp add: addOutlineStyles_found)
  with g p True show ?thesis by (auto simp: plain_style_sub read_plain)
next
  case False
  let ?new = "text_children (Suc (depth e)) (fresh d) (raw_text B t)"
  let ?d' = "snd (addOutlineStyles B k t d)"
  from g False have n: "nodes ?d' = pre @ e # ?new @ post"
    by (simp add: addOutlineStyles_found nodes_assign new_children_plain [OF p])
  have "\<forall>x\<in>set ?new. depth e < depth x"
    by (simp add: text_children_def text_node_def)
  from getElementById_rebuild [OF g this n] False show ?thesis
    by (auto simp: kind_text_children data_text_children)
qed

lemma nodes_addOutlineStyles_found_plain:
  assumes g: "getElementById k d = Some (pre, e, sub, post)"
    and p: "plain_style (pre, e, sub, post)"
  shows "\<exists>new. nodes (snd (addOutlineStyles B k t d)) = pre @ e # new @ post \<and>
           list_all (\<lambda>x. kind x = TextNode) new"
proof -
  from addOutlineStyles_found_plain [OF g p] obtain new where
    n: "getElementById k (snd (addOutlineStyles B k t d)) = Some (pre, e, new, post)"
    "list_all (\<lambda>x. kind x = TextNode) new" by blast
  from getElementById_SomeD(3) [OF n(1)] n(2) show ?thesis by blast
qed

lemma blocks_addOutlineStyles_found_plain:
  assumes g: "getElementById k d = Some (pre, e, sub, post)"
    and p: "plain_style (pre, e, sub, post)"
  shows "blocks k' (snd (addOutlineStyles B k t d)) = blocks k' d"
proof -
  from nodes_addOutlineStyles_found_plain [OF g p] obtain new where
    n: "nodes (snd (addOutlineStyles B k t d)) = pre @ e # new @ post"
    "list_all (\<lambda>x. kind x = TextNode) new" by blast
  from p have "list_all (\<lambda>x. kind x = TextNode) sub" by (simp add: plain_style_sub)
  then show ?thesis
    using n getElementById_SomeD(3) [OF g]
    by (simp add: blocks_def filter_registered_text)
qed

text \<open>Creating the style element.\<close>

lemma addOutlineStyles_new_found:
  assumes g: "getElementById k d = None" and h: "head_element d = Some (pre, h, sub, post)"
    and k: "k \<noteq> []"
  shows "getElementById k (snd (addOutlineStyles B k t d)) =
           Some (pre @ h # sub, html_node (Suc (depth h)) (fresh d) ''style'' (Some k),
                 text_children (Suc (Suc (depth h))) (Suc (fresh d)) (raw_text B t), post)"
proof -
  let ?st = "html_node (Suc (depth h)) (fresh d) ''style'' (Some k)"
  let ?kids = "text_children (Suc (Suc (depth h))) (Suc (fresh d)) (raw_text B t)"
  have n: "nodes (snd (addOutlineStyles B k t d)) = (pre @ h # sub) @ ?st # ?kids @ post"
    by (simp add: addOutlineStyles_new [OF g h] new_style_def)
  from g have "\<forall>x\<in>set (nodes d). \<not> has_ID k x"
    by (simp add: getElementById_def locate_None_iff)
  then have a: "\<forall>x\<in>set (pre @ h # sub). \<not> has_ID k x"
    by (auto simp: head_element_SomeD(1) [OF h])
  have b: "has_ID k ?st" using k by (simp add: has_ID_def html_node_def is_element_def)
  have c: "\<forall>x\<in>set ?kids. depth ?st < depth x"
    by (simp add: text_children_def text_node_def html_node_def)
  have d: "case post of [] \<Rightarrow> True | p # _ \<Rightarrow> \<not> depth ?st < depth p"
    using head_element_SomeD(2) [OF h] by (auto simp: html_node_def split: list.splits)
  show ?thesis
    unfolding getElementById_def n by (rule locate_rebuild [OF a b c d])
qed

lemma blocks_addOutlineStyles_new:
  assumes g: "getElementById k d = None" and h: "head_element d = Some (pre, h, sub, post)"
  shows "blocks k' (snd (addOutlineStyles B k t d)) =
           filter (registered k') (pre @ h # sub) @
           (if k' = k then [html_node (Suc (depth h)) (fresh d) ''style'' (Some k)] else []) @
           filter (registered k') post"
  by (simp add: addOutlineStyles_new [OF g h] new_style_def blocks_def registered_def
      html_node_def is_element_def text_children_def text_node_def)

lemma nodes_addOutlineStyles_throw:
  "fst (addOutlineStyles B k t d) \<noteq> Normal \<Longrightarrow>
   nodes (snd (addOutlineStyles B k t d)) = nodes d \<and>
   mutations (snd (addOutlineStyles B k t d)) = mutations d \<and>
   getElementById k d = None"
  by (auto simp: fst_addOutlineStyles addOutlineStyles_throw split: if_splits)

text \<open>One call on a key whose element, if there is one, is a style element holding text.\<close>

lemma addOutlineStyles_step:
  assumes k: "k \<noteq> []" and s: "style_block k d" and n: "fst (addOutlineStyles B k t d) = Normal"
  shows "style_block k (snd (addOutlineStyles B k t d))"
    and "content B k (snd (addOutlineStyles B k t d)) =
           Some (if content B k d = Some t then t else raw_text B t)"
    and "length (blocks k (snd (addOutlineStyles B k t d))) = max 1 (length (blocks k d))"
    and "k' \<noteq> k \<Longrightarrow> blocks k' (snd (addOutlineStyles B k t d)) = blocks k' d"
    and "later_blocks k (snd (addOutlineStyles B k t d)) = later_blocks k d"
proof -
  let ?d' = "snd (addOutlineStyles B k t d)"
  have "style_block k ?d' \<and>
        content B k ?d' = Some (if content B k d = Some t then t else raw_text B t) \<and>
        length (blocks k ?d') = max 1 (length (blocks k d)) \<and>
        (k' \<noteq> k \<longrightarrow> blocks k' ?d' = blocks k' d) \<and>
        later_blocks k ?d' = later_blocks k d"
  proof (cases "getElementById k d")
    case None
    with n obtain loc where "head_element d = Some loc"
      by (cases "head_element d") (auto simp: fst_addOutlineStyles)
    then obtain pre h sub post where h: "head_element d = Some (pre, h, sub, post)"
      by (cases loc) auto
    from None k have e: "blocks k d = []" by (simp add: getElementById_None_iff)
    then have "\<forall>x\<in>set (pre @ h # sub @ post). \<not> registered k x"
      unfolding blocks_def head_element_SomeD(1) [OF h] by (simp only: filter_empty_conv)
    then have f: "filter (registered k) (pre @ h # sub) = []" "filter (registered k) post = []"
      by (auto simp: filter_empty_conv)
    note g' = addOutlineStyles_new_found [OF None h k, of B t]
    have "plain_style (pre @ h # sub, html_node (Suc (depth h)) (fresh d) ''style'' (Some k),
                 text_children (Suc (Suc (depth h))) (Suc (fresh d)) (raw_text B t), post)"
      by (simp add: plain_style_sub kind_text_children html_node_def)
    moreover have "blocks k' d = filter (registered k') (pre @ h # sub) @ filter (registered k') post"
      unfolding blocks_def head_element_SomeD(1) [OF h] by simp
    moreover have "blocks k ?d' = [html_node (Suc (depth h)) (fresh d) ''style'' (Some k)]"
      unfolding blocks_addOutlineStyles_new [OF None h] f by simp
    moreover have "k' \<noteq> k \<longrightarrow> blocks k' ?d' =
        filter (registered k') (pre @ h # sub) @ filter (registered k') post"
      unfolding blocks_addOutlineStyles_new [OF None h] by simp
    ultimately show ?thesis
      using g' e f(2) None
      by (simp add: style_block_def content_def read_plain data_text_children later_blocks_def)
  next
    case (Some loc)
    obtain pre e sub post where loc: "loc = (pre, e, sub, post)" by (cases loc) auto
    with Some have g: "getElementById k d = Some (pre, e, sub, post)" by simp
    with s have p: "plain_style (pre, e, sub, post)" by (simp add: style_block_def)
    from addOutlineStyles_found_plain [OF g p, of B t] obtain new where
      new: "getElementById k ?d' = Some (pre, e, new, post)"
      "list_all (\<lambda>x. kind x = TextNode) new"
      "concat (map data new) = (if read_innerHTML B (pre, e, sub, post) = t then t else raw_text B t)"
      by blast
    from p new(2) have p': "plain_style (pre, e, new, post)" by (simp add: plain_style_sub)
    have b: "blocks k ?d' = blocks k d" "blocks k' ?d' = blocks k' d"
      by (rule blocks_addOutlineStyles_found_plain [OF g p])+
    have "blocks k d \<noteq> []" using blocks_split(1) [OF g] by simp
    then have "max 1 (length (blocks k d)) = length (blocks k d)"
      by (cases "blocks k d") simp_all
    then show ?thesis
      using new p' b g by (simp add: style_block_def content_def read_plain later_blocks_def)
  qed
  then show "style_block k ?d'"
    and "content B k ?d' = Some (if content B k d = Some t then t else raw_text B t)"
    and "length (blocks k ?d') = max 1 (length (blocks k d))"
    and "k' \<noteq> k \<Longrightarrow> blocks k' ?d' = blocks k' d"
    and "later_blocks k ?d' = later_blocks k d"
    by simp_all
qed

section \<open>Sequencing\<close>

lemma seq_Normal: "fst (f d) = Normal \<Longrightarrow> seq f g d = g (snd (f d))"
  by (cases "f d") (simp add: seq_def)

lemma seq_Throw: "fst (f d) \<noteq> Normal \<Longrightarrow> seq f g d = f d"
  by (cases "f d") (auto simp: seq_def split: completion.splits)

lemma addOutlineStyles_found_any:
  assumes g: "getElementById k d = Some (pre, e, sub, post)"
  shows "\<exists>new. getElementById k (snd (addOutlineStyles B k t d)) = Some (pre, e, new, post)"
proof (cases "read_innerHTML B (pre, e, sub, post) = t")
  case True
  with g show ?thesis by (simp add: addOutlineStyles_found)
next
  case False
  let ?new = "new_children B (pre, e, sub, post) t (fresh d)"
  from g False have n: "nodes (snd (addOutlineStyles B k t d)) = pre @ e # ?new @ post"
    by (simp add: addOutlineStyles_found nodes_assign)
  from getElementById_rebuild [OF g new_children_deeper n] show ?thesis by blast
qed

lemma parentElement_sub: "parentElement (pre, e, new, post) = parentElement (pre, e, sub, post)"
  by (simp add: parentElement_def)

text \<open>
  Unfolding everything, to run the helpers on a concrete document.
\<close>

lemmas run_simps =
  seq_def addOutlineStyles_def clearStyles_def clearStyle_def getElementById_def locate_def
  has_ID_def is_element_def registered_def parentElement_def removeChild_def createElement_def
  head_appendChild_def head_element_def assign_innerHTML_def new_children_def read_innerHTML_def
  plain_style_def text_children_def raw_text_def normalise_newlines_def html_node_def
  text_node_def blocks_def content_def later_blocks_def style_block_def removable_def
  example_browser_def parse_example_def start_tag_def Let_def
  empty_document_def two_blocks_document_def headless_document_def headless_block_document_def
  empty_key_document_def root_block_document_def div_block_document_def
  div_and_style_document_def

section \<open>Applying a key twice\<close>

text \<open>
  Claim C1, as amended. For every non-empty key \<open>k\<close> and texts \<open>t1\<close>, \<open>t2\<close>, where \<open>t2\<close>
  holds no carriage return and no U+0000: on a document that holds at most one block
  under \<open>k\<close>, that has a head or already holds the block, and where the element found
  under \<open>k\<close>, if any, is a \<^verbatim>\<open>style\<close> element holding text, \<open>addOutlineStyles k t1\<close>
  followed by \<open>addOutlineStyles k t2\<close> returns normally and leaves exactly one block
  under \<open>k\<close>, whose content reads \<open>t2\<close>. This holds for every browser \<open>B\<close>.
\<close>

theorem addOutlineStyles_twice_one_block:
  assumes "k \<noteq> []" and "length (blocks k d) \<le> 1"
    and "head_element d \<noteq> None \<or> blocks k d \<noteq> []"
    and "style_block k d" and "plain_text t2"
  shows "fst (seq (addOutlineStyles B k t1) (addOutlineStyles B k t2) d) = Normal \<and>
         length (blocks k (snd (seq (addOutlineStyles B k t1) (addOutlineStyles B k t2) d))) = 1 \<and>
         content B k (snd (seq (addOutlineStyles B k t1) (addOutlineStyles B k t2) d)) = Some t2"
proof -
  let ?d1 = "snd (addOutlineStyles B k t1 d)"
  let ?d2 = "snd (addOutlineStyles B k t2 ?d1)"
  have n1: "fst (addOutlineStyles B k t1 d) = Normal"
    using assms(1,3) by (auto simp: fst_addOutlineStyles getElementById_None_iff)
  note s1 = addOutlineStyles_step [OF assms(1) assms(4) n1]
  from s1(3) assms(2) have l1: "length (blocks k ?d1) = 1" by simp
  then have "blocks k ?d1 \<noteq> []" by auto
  then have n2: "fst (addOutlineStyles B k t2 ?d1) = Normal"
    using assms(1) by (simp add: fst_addOutlineStyles getElementById_None_iff)
  note s2 = addOutlineStyles_step [OF assms(1) s1(1) n2]
  from s2(3) l1 have "length (blocks k ?d2) = 1" by simp
  moreover from s2(2) have "content B k ?d2 = Some t2"
    by (simp add: raw_text_plain [OF assms(5)])
  ultimately show ?thesis using n1 n2 by (simp add: seq_Normal)
qed

text \<open>
  Witness for claim C1: the scenario of the specification, on the empty document.
\<close>

theorem addOutlineStyles_twice_one_block_witness:
  "''addon-outline'' \<noteq> [] \<and> length (blocks ''addon-outline'' empty_document) \<le> 1 \<and>
   head_element empty_document \<noteq> None \<and>
   style_block ''addon-outline'' empty_document \<and>
   plain_text ''body{outline:1px solid blue}'' \<and>
   fst (seq (addOutlineStyles example_browser ''addon-outline'' ''body{outline:1px solid red}'')
            (addOutlineStyles example_browser ''addon-outline'' ''body{outline:1px solid blue}'')
            empty_document) = Normal \<and>
   length (blocks ''addon-outline''
     (snd (seq (addOutlineStyles example_browser ''addon-outline'' ''body{outline:1px solid red}'')
               (addOutlineStyles example_browser ''addon-outline'' ''body{outline:1px solid blue}'')
               empty_document))) = 1 \<and>
   content example_browser ''addon-outline''
     (snd (seq (addOutlineStyles example_browser ''addon-outline'' ''body{outline:1px solid red}'')
               (addOutlineStyles example_browser ''addon-outline'' ''body{outline:1px solid blue}'')
               empty_document)) = Some ''body{outline:1px solid blue}''"
proof -
  have h: "''addon-outline'' \<noteq> []" "length (blocks ''addon-outline'' empty_document) \<le> 1"
    "head_element empty_document \<noteq> None \<or> blocks ''addon-outline'' empty_document \<noteq> []"
    "style_block ''addon-outline'' empty_document"
    "plain_text ''body{outline:1px solid blue}''"
    by (simp_all add: run_simps plain_text_def)
  have "head_element empty_document \<noteq> None" by (simp add: run_simps)
  with addOutlineStyles_twice_one_block [OF h] h show ?thesis by blast
qed

text \<open>
  Counterexample for claim C1 as stated (every key, every text, every surface).
  \<^item> With the empty key \<^verbatim>\<open>getElementById("")\<close> never finds the block of the first call,
    so the second call appends another one: two blocks, the nodes 3 and 5.
  \<^item> On a document that already holds two elements with id \<^verbatim>\<open>k\<close> both stay.
  \<^item> On a document without head and without the block the first call throws, and no
    block exists.
  \<^item> A text with CR LF is stored with the line break normalised: the content reads
    \<^verbatim>\<open>b\<close>, LF, \<^verbatim>\<open>c\<close> and not the text that was given.
  \<^item> When the element under \<^verbatim>\<open>k\<close> is a \<^verbatim>\<open>div\<close>, the text \<^verbatim>\<open>u>v\<close> reads back escaped.
\<close>

theorem addOutlineStyles_twice_counterexample:
  "map ref (blocks [] (snd (seq (addOutlineStyles example_browser [] ''a'')
      (addOutlineStyles example_browser [] ''b'') empty_document))) = [3, 5] \<and>
   map ref (blocks ''k'' (snd (seq (addOutlineStyles example_browser ''k'' ''a'')
      (addOutlineStyles example_browser ''k'' ''b'') two_blocks_document))) = [3, 5] \<and>
   fst (seq (addOutlineStyles example_browser ''k'' ''a'')
      (addOutlineStyles example_browser ''k'' ''b'') headless_document) = Throw TypeError \<and>
   blocks ''k'' (snd (seq (addOutlineStyles example_browser ''k'' ''a'')
      (addOutlineStyles example_browser ''k'' ''b'') headless_document)) = [] \<and>
   content example_browser ''k'' (snd (seq (addOutlineStyles example_browser ''k'' ''a'')
      (addOutlineStyles example_browser ''k'' [CHR ''b'', CHR 0x0D, CHR 0x0A, CHR ''c''])
      empty_document)) = Some [CHR ''b'', CHR 0x0A, CHR ''c''] \<and>
   content example_browser ''k'' (snd (seq (addOutlineStyles example_browser ''k'' ''a'')
      (addOutlineStyles example_browser ''k'' ''u>v'') div_block_document)) = Some ''u&gt;v''"
  by (simp add: run_simps)

section \<open>Applying, then clearing\<close>

text \<open>
  Claim C2, as amended. For every non-empty key \<open>k\<close> and text \<open>t\<close>, starting from a
  document in which no block under \<open>k\<close> lies outside the first element with that ID and
  its descendants (so from every document with at most one block under \<open>k\<close>), and in
  which that element is not the document element: \<open>addOutlineStyles k t\<close> followed by
  \<open>clearStyles k\<close> leaves no block under \<open>k\<close>. (When the first call throws, the second
  one does not run.) This holds for every browser and for an element of any kind.
\<close>

theorem apply_then_clear_no_block:
  assumes "k \<noteq> []" and "later_blocks k d = []" and "removable k d"
  shows "blocks k (snd (seq (addOutlineStyles B k t) (clearStyles (Single k)) d)) = []"
proof (cases "fst (addOutlineStyles B k t d) = Normal")
  case False
  from nodes_addOutlineStyles_throw [OF False] assms(1)
  have "blocks k (snd (addOutlineStyles B k t d)) = []"
    by (simp add: blocks_def getElementById_None_iff)
  with False show ?thesis by (simp add: seq_Throw)
next
  case True
  let ?d1 = "snd (addOutlineStyles B k t d)"
  have "\<exists>loc. getElementById k ?d1 = Some loc \<and> parentElement loc \<noteq> None \<and>
          later_blocks k ?d1 = []"
  proof (cases "getElementById k d")
    case None
    with True obtain loc where "head_element d = Some loc"
      by (cases "head_element d") (auto simp: fst_addOutlineStyles)
    then obtain pre h sub post where h: "head_element d = Some (pre, h, sub, post)"
      by (cases loc) auto
    from None assms(1) have "blocks k d = []" by (simp add: getElementById_None_iff)
    then have "\<forall>x\<in>set (pre @ h # sub @ post). \<not> registered k x"
      unfolding blocks_def head_element_SomeD(1) [OF h] by (simp only: filter_empty_conv)
    then have f: "filter (registered k) post = []" by (auto simp: filter_empty_conv)
    note g' = addOutlineStyles_new_found [OF None h assms(1), of B t]
    have "parentElement (pre @ h # sub, html_node (Suc (depth h)) (fresh d) ''style'' (Some k),
            text_children (Suc (Suc (depth h))) (Suc (fresh d)) (raw_text B t), post) \<noteq> None"
      by (auto simp: parentElement_def find_None_iff html_node_def)
    with g' f show ?thesis by (simp add: later_blocks_def)
  next
    case (Some loc)
    obtain pre e sub post where loc: "loc = (pre, e, sub, post)" by (cases loc) auto
    with Some have g: "getElementById k d = Some (pre, e, sub, post)" by simp
    from addOutlineStyles_found_any [OF g, of B t] obtain new where
      new: "getElementById k ?d1 = Some (pre, e, new, post)" by blast
    from assms(3) g have "parentElement (pre, e, new, post) \<noteq> None"
      by (simp add: removable_def parentElement_sub [of pre e new post sub])
    with new assms(2) g show ?thesis by (simp add: later_blocks_def)
  qed
  then obtain loc where l: "getElementById k ?d1 = Some loc" "parentElement loc \<noteq> None"
    "later_blocks k ?d1 = []" by blast
  from blocks_clearStyle_removed [OF l(1) l(2)] l(3) True show ?thesis
    by (simp add: seq_Normal clearStyles_Single)
qed

text \<open>
  Witness for claim C2: a document that holds a block under \<^verbatim>\<open>k\<close>.
\<close>

theorem apply_then_clear_no_block_witness:
  "''k'' \<noteq> [] \<and> later_blocks ''k'' headless_block_document = [] \<and>
   removable ''k'' headless_block_document \<and>
   blocks ''k''
     (snd (seq (addOutlineStyles example_browser ''k'' ''body{outline:1px solid red}'')
               (clearStyles (Single ''k'')) headless_block_document)) = []"
proof -
  have h: "''k'' \<noteq> []" "later_blocks ''k'' headless_block_document = []"
    "removable ''k'' headless_block_document"
    by (simp_all add: run_simps)
  from apply_then_clear_no_block [OF h] h show ?thesis by blast
qed

text \<open>
  Counterexample for claim C2 as stated (every key, any surface state).
  \<^item> The block created under the empty key (node 3) cannot be found again, so
    \<open>clearStyles\<close> leaves it in place.
  \<^item> Of two elements with id \<^verbatim>\<open>k\<close> only the first is removed; node 5 stays.
  \<^item> On \<^verbatim>\<open><html id="k">\<close> the element found has no parent element, and \<open>clearStyle\<close>
    removes nothing: the block, node 0, stays.
\<close>

theorem apply_then_clear_counterexample:
  "map ref (blocks [] (snd (seq (addOutlineStyles example_browser [] ''a'')
      (clearStyles (Single [])) empty_document))) = [3] \<and>
   map ref (blocks ''k'' (snd (seq (addOutlineStyles example_browser ''k'' ''a'')
      (clearStyles (Single ''k'')) two_blocks_document))) = [5] \<and>
   map ref (blocks ''k'' (snd (seq (addOutlineStyles example_browser ''k'' ''a'')
      (clearStyles (Single ''k'')) root_block_document))) = [0]"
  by (simp add: run_simps)

lemma getElementById_cong: "nodes d' = nodes d \<Longrightarrow> getElementById k d' = getElementById k d"
  by (simp add: getElementById_def)

section \<open>Idempotence\<close>

text \<open>
  Claim C3, as amended. When the content found under \<open>k\<close> already reads \<open>t\<close>,
  \<open>addOutlineStyles k t\<close> returns normally and leaves the whole state as it is, on
  every element and for every text. For every non-empty key \<open>k\<close> and every text \<open>t\<close> without carriage
  return and U+0000, on a document where the element found under \<open>k\<close>, if any, is a
  \<^verbatim>\<open>style\<close> element holding text: a second call \<open>addOutlineStyles k t\<close> ends as the first
  one did and changes no node and performs no mutation; after a first call that returned
  normally it leaves the whole state as it is, so every node keeps its identity. And on
  a document where no block under \<open>k\<close> lies outside the first element with that ID and
  its descendants, calling \<open>clearStyles k\<close> twice gives the same result as calling it
  once.
\<close>

theorem apply_clear_idempotent:
  "(content B k d = Some t \<longrightarrow> addOutlineStyles B k t d = (Normal, d)) \<and>
   (k \<noteq> [] \<longrightarrow> style_block k d \<longrightarrow> plain_text t \<longrightarrow>
      fst (addOutlineStyles B k t (snd (addOutlineStyles B k t d))) =
        fst (addOutlineStyles B k t d) \<and>
      nodes (snd (addOutlineStyles B k t (snd (addOutlineStyles B k t d)))) =
        nodes (snd (addOutlineStyles B k t d)) \<and>
      mutations (snd (addOutlineStyles B k t (snd (addOutlineStyles B k t d)))) =
        mutations (snd (addOutlineStyles B k t d)) \<and>
      (fst (addOutlineStyles B k t d) = Normal \<longrightarrow>
         addOutlineStyles B k t (snd (addOutlineStyles B k t d)) =
           (Normal, snd (addOutlineStyles B k t d)))) \<and>
   (later_blocks k d = [] \<longrightarrow>
      clearStyles (Single k) (snd (clearStyles (Single k) d)) = clearStyles (Single k) d)"
proof (intro conjI impI)
  assume "content B k d = Some t"
  then obtain loc where "getElementById k d = Some loc" "read_innerHTML B loc = t"
    by (auto simp: content_def)
  then show "addOutlineStyles B k t d = (Normal, d)"
    by (simp add: addOutlineStyles_found)
next
  assume k: "k \<noteq> []" and s: "style_block k d" and p: "plain_text t"
  let ?d1 = "snd (addOutlineStyles B k t d)"
  have normal: "addOutlineStyles B k t ?d1 = (Normal, ?d1)"
    if n: "fst (addOutlineStyles B k t d) = Normal"
  proof -
    from addOutlineStyles_step(2) [OF k s n] have "content B k ?d1 = Some t"
      by (simp add: raw_text_plain [OF p])
    then obtain loc where "getElementById k ?d1 = Some loc" "read_innerHTML B loc = t"
      by (auto simp: content_def)
    then show ?thesis by (simp add: addOutlineStyles_found)
  qed
  have throw: "fst (addOutlineStyles B k t ?d1) = Throw TypeError \<and>
      nodes (snd (addOutlineStyles B k t ?d1)) = nodes ?d1 \<and>
      mutations (snd (addOutlineStyles B k t ?d1)) = mutations ?d1"
    if n: "fst (addOutlineStyles B k t d) \<noteq> Normal"
  proof -
    from n have g: "getElementById k d = None" and h: "head_element d = None"
      by (auto simp: fst_addOutlineStyles split: if_splits)
    from nodes_addOutlineStyles_throw [OF n] have e: "nodes ?d1 = nodes d" by simp
    from g h have "getElementById k ?d1 = None" "head_element ?d1 = None"
      using getElementById_cong [OF e, of k] head_element_cong [OF e] by simp_all
    then show ?thesis by (simp add: addOutlineStyles_throw)
  qed
  show "fst (addOutlineStyles B k t ?d1) = fst (addOutlineStyles B k t d)"
    using normal throw by (cases "fst (addOutlineStyles B k t d) = Normal")
      (auto simp: fst_addOutlineStyles split: if_splits)
  show "nodes (snd (addOutlineStyles B k t ?d1)) = nodes ?d1"
    using normal throw by (cases "fst (addOutlineStyles B k t d) = Normal") auto
  show "mutations (snd (addOutlineStyles B k t ?d1)) = mutations ?d1"
    using normal throw by (cases "fst (addOutlineStyles B k t d) = Normal") auto
  show "addOutlineStyles B k t ?d1 = (Normal, ?d1)"
    if "fst (addOutlineStyles B k t d) = Normal"
    using normal that by simp
next
  assume l: "later_blocks k d = []"
  let ?d1 = "snd (clearStyle k d)"
  have c: "clearStyle k d = (Normal, ?d1)"
    using fst_clearStyle [of k d] by (cases "clearStyle k d") simp
  have "clearStyle k ?d1 = (Normal, ?d1)"
  proof (cases "getElementById k d")
    case None
    then show ?thesis by (simp add: clearStyle_absent)
  next
    case (Some loc)
    show ?thesis
    proof (cases "parentElement loc")
      case None
      with Some show ?thesis by (simp add: clearStyle_root)
    next
      case P: (Some p)
      obtain pre e sub post where "loc = (pre, e, sub, post)" by (cases loc) auto
      with Some have k: "k \<noteq> []" using getElementById_SomeD(1) by blast
      from blocks_clearStyle_removed [OF Some] P l have "blocks k ?d1 = []" by simp
      with k have "getElementById k ?d1 = None" by (simp add: getElementById_None_iff)
      then show ?thesis by (simp add: clearStyle_absent)
    qed
  qed
  with c show "clearStyles (Single k) (snd (clearStyles (Single k) d)) = clearStyles (Single k) d"
    by (simp add: clearStyles_Single)
qed

text \<open>
  Witness for claim C3: the key \<^verbatim>\<open>addon-outline\<close> on the empty document, the document
  without head, and clearing a block that exists.
\<close>

theorem apply_clear_idempotent_witness:
  "content example_browser ''k'' headless_block_document = Some ''x'' \<and>
   addOutlineStyles example_browser ''k'' ''x'' headless_block_document =
     (Normal, headless_block_document) \<and>
   ''addon-outline'' \<noteq> [] \<and> style_block ''addon-outline'' empty_document \<and> plain_text ''a'' \<and>
   fst (addOutlineStyles example_browser ''addon-outline'' ''a'' empty_document) = Normal \<and>
   addOutlineStyles example_browser ''addon-outline'' ''a''
     (snd (addOutlineStyles example_browser ''addon-outline'' ''a'' empty_document)) =
     (Normal, snd (addOutlineStyles example_browser ''addon-outline'' ''a'' empty_document)) \<and>
   fst (addOutlineStyles example_browser ''k'' ''a''
     (snd (addOutlineStyles example_browser ''k'' ''a'' headless_document))) =
     fst (addOutlineStyles example_browser ''k'' ''a'' headless_document) \<and>
   later_blocks ''k'' headless_block_document = [] \<and>
   clearStyles (Single ''k'') (snd (clearStyles (Single ''k'') headless_block_document)) =
     clearStyles (Single ''k'') headless_block_document"
proof -
  have h: "''addon-outline'' \<noteq> []" "style_block ''addon-outline'' empty_document"
    "plain_text ''a''"
    "fst (addOutlineStyles example_browser ''addon-outline'' ''a'' empty_document) = Normal"
    "later_blocks ''k'' headless_block_document = []"
    "''k'' \<noteq> []" "style_block ''k'' headless_document"
    "content example_browser ''k'' headless_block_document = Some ''x''"
    by (simp_all add: run_simps plain_text_def)
  from apply_clear_idempotent [of example_browser "''addon-outline''" empty_document "''a''"]
    apply_clear_idempotent [of example_browser "''k''" headless_block_document "''a''"]
    apply_clear_idempotent [of example_browser "''k''" headless_block_document "''x''"]
    apply_clear_idempotent [of example_browser "''k''" headless_document "''a''"] h
  show ?thesis by blast
qed

text \<open>
  Counterexample for claim C3 as stated. The mutations performed show that the second
  call is no no-op:
  \<^item> with the empty key it inserts a second element;
  \<^item> with a text holding a CR the stored text never equals the given one, so the
    second call replaces the children again;
  \<^item> on a \<^verbatim>\<open>div\<close> the text \<^verbatim>\<open>u>v\<close> reads back escaped, so the second call replaces
    the children again;
  \<^item> with two elements under one id the second \<open>clearStyles\<close> removes another element,
    where one call removes one.
\<close>

theorem apply_clear_idempotent_counterexample:
  "mutations (snd (seq (addOutlineStyles example_browser [] ''a'')
      (addOutlineStyles example_browser [] ''a'') empty_document)) = [Inserted 3, Inserted 5] \<and>
   mutations (snd (seq (addOutlineStyles example_browser ''k'' [CHR ''b'', CHR 0x0D, CHR ''c''])
      (addOutlineStyles example_browser ''k'' [CHR ''b'', CHR 0x0D, CHR ''c''])
      empty_document)) = [Inserted 3, ChildrenReplaced 3] \<and>
   mutations (snd (seq (addOutlineStyles example_browser ''k'' ''u>v'')
      (addOutlineStyles example_browser ''k'' ''u>v'') div_block_document)) =
      [ChildrenReplaced 3, ChildrenReplaced 3] \<and>
   mutations (snd (seq (clearStyles (Single ''k'')) (clearStyles (Single ''k''))
      two_blocks_document)) = [Removed 3, Removed 5] \<and>
   mutations (snd (clearStyles (Single ''k'') two_blocks_document)) = [Removed 3]"
  by (simp add: run_simps)

section \<open>Clearing an absent key\<close>



section \<open>The invariant: at most one block under a key\<close>

text \<open>
  \<open>unique_blocks\<close> says that every key has at most one block.
\<close>

lemma distinct_ids_iff:
  "distinct (map f (filter (\<lambda>e. E e \<and> f e \<noteq> None) xs)) \<longleftrightarrow>
   (\<forall>k. length (filter (\<lambda>e. E e \<and> f e = Some k) xs) \<le> 1)"
proof (induction xs)
  case Nil
  then show ?case by simp
next
  case (Cons x xs)
  show ?case
  proof (cases "E x \<and> f x \<noteq> None")
    case False
    then have "\<And>k. \<not> (E x \<and> f x = Some k)" by auto
    with False Cons show ?thesis by auto
  next
    case True
    then obtain a where a: "E x" "f x = Some a" by auto
    have m: "(Some a \<notin> f ` {e \<in> set xs. E e \<and> f e \<noteq> None}) =
             (filter (\<lambda>e. E e \<and> f e = Some a) xs = [])"
      by (auto simp: filter_empty_conv image_iff)
    show ?thesis
    proof
      assume l: "distinct (map f (filter (\<lambda>e. E e \<and> f e \<noteq> None) (x # xs)))"
      with a Cons have r: "\<forall>k. length (filter (\<lambda>e. E e \<and> f e = Some k) xs) \<le> 1" by simp
      from l a m have "filter (\<lambda>e. E e \<and> f e = Some a) xs = []" by simp
      with r a show "\<forall>k. length (filter (\<lambda>e. E e \<and> f e = Some k) (x # xs)) \<le> 1" by simp
    next
      assume r: "\<forall>k. length (filter (\<lambda>e. E e \<and> f e = Some k) (x # xs)) \<le> 1"
      then have "length (filter (\<lambda>e. E e \<and> f e = Some a) (x # xs)) \<le> 1" by blast
      with a have e: "filter (\<lambda>e. E e \<and> f e = Some a) xs = []" by simp
      have "\<forall>k. length (filter (\<lambda>e. E e \<and> f e = Some k) xs) \<le> 1"
      proof
        fix k
        from r have "length (filter (\<lambda>e. E e \<and> f e = Some k) (x # xs)) \<le> 1" by blast
        then show "length (filter (\<lambda>e. E e \<and> f e = Some k) xs) \<le> 1"
          by (simp split: if_splits)
      qed
      with Cons have "distinct (map f (filter (\<lambda>e. E e \<and> f e \<noteq> None) xs))" by simp
      with e m a show "distinct (map f (filter (\<lambda>e. E e \<and> f e \<noteq> None) (x # xs)))" by simp
    qed
  qed
qed

lemma unique_blocks_iff: "unique_blocks d \<longleftrightarrow> (\<forall>k. length (blocks k d) \<le> 1)"
  unfolding unique_blocks_def distinct_ids_iff by (simp add: blocks_def registered_def [abs_def])

lemma unique_blocks_clearStyle: "unique_blocks d \<Longrightarrow> unique_blocks (snd (clearStyle k d))"
  unfolding unique_blocks_iff using blocks_clearStyle_le le_trans by blast

lemma unique_blocks_fold_clearStyle:
  "unique_blocks d \<Longrightarrow> unique_blocks (fold (\<lambda>k s. snd (clearStyle k s)) ks d)"
  by (induction ks arbitrary: d) (simp_all add: unique_blocks_clearStyle)

text \<open>
  Claim C5, as amended. At most one block under every key is an invariant of the
  helpers on style blocks with non-empty keys: from a document where it holds, it holds
  again after \<open>addOutlineStyles k t\<close> for every non-empty key \<open>k\<close> whose element, if there
  is one, is a \<^verbatim>\<open>style\<close> element holding text, and after \<open>clearStyles\<close> on any key or
  list of keys.
\<close>

theorem unique_blocks_preserved:
  assumes "unique_blocks d"
  shows "(k \<noteq> [] \<longrightarrow> style_block k d \<longrightarrow> unique_blocks (snd (addOutlineStyles B k t d))) \<and>
         unique_blocks (snd (clearStyles sel d))"
proof
  show "k \<noteq> [] \<longrightarrow> style_block k d \<longrightarrow> unique_blocks (snd (addOutlineStyles B k t d))"
  proof (intro impI)
    assume k: "k \<noteq> []" and s: "style_block k d"
    show "unique_blocks (snd (addOutlineStyles B k t d))"
    proof (cases "fst (addOutlineStyles B k t d) = Normal")
      case True
      note st = addOutlineStyles_step [OF k s True]
      show ?thesis
        unfolding unique_blocks_iff
      proof
        fix k'
        from assms have l: "length (blocks k' d) \<le> 1" "length (blocks k d) \<le> 1"
          by (simp_all add: unique_blocks_iff)
        show "length (blocks k' (snd (addOutlineStyles B k t d))) \<le> 1"
        proof (cases "k' = k")
          case True
          with st(3) l(2) show ?thesis by simp
        next
          case False
          with st(4) [of k'] l(1) show ?thesis by simp
        qed
      qed
    next
      case False
      from nodes_addOutlineStyles_throw [OF False] assms show ?thesis
        by (simp add: unique_blocks_def)
    qed
  qed
next
  show "unique_blocks (snd (clearStyles sel d))"
    using assms by (cases sel)
      (simp_all add: clearStyles_def forEach_clearStyle unique_blocks_fold_clearStyle
        unique_blocks_clearStyle del: forEach.simps)
qed

text \<open>
  Witness for claim C5: a document that holds a block.
\<close>

theorem unique_blocks_preserved_witness:
  "unique_blocks headless_block_document \<and> ''k'' \<noteq> [] \<and>
   style_block ''k'' headless_block_document \<and>
   unique_blocks (snd (addOutlineStyles example_browser ''k'' ''a'' headless_block_document)) \<and>
   unique_blocks (snd (clearStyles (Many [''addon-outline'', ''k'']) headless_block_document))"
proof -
  have h: "unique_blocks headless_block_document" "''k'' \<noteq> []"
    "style_block ''k'' headless_block_document"
    by (simp_all add: unique_blocks_def run_simps)
  from unique_blocks_preserved [OF h(1), of "''k''" example_browser "''a''"
      "Many [''addon-outline'', ''k'']"] h
  show ?thesis by simp
qed

text \<open>
  Counterexample for claim C5 as stated (every apply).
  \<^item> The document made by one \<open>addOutlineStyles\<close> with the empty key has one block under
    every key it holds; a second call with the empty key appends another element with
    \<^verbatim>\<open>id=""\<close>.
  \<^item> When the element under \<^verbatim>\<open>k\<close> is a \<^verbatim>\<open>div\<close>, the assigned string is parsed as markup:
    \<^verbatim>\<open><p id=j>t</p>\<close> makes a second element with id \<^verbatim>\<open>j\<close> beside the one in the head.
\<close>

theorem unique_blocks_counterexample:
  "unique_blocks empty_key_document \<and>
   \<not> unique_blocks (snd (addOutlineStyles example_browser [] ''b'' empty_key_document)) \<and>
   unique_blocks div_and_style_document \<and>
   \<not> unique_blocks (snd (addOutlineStyles example_browser ''k'' ''<p id=j>t</p>''
        div_and_style_document))"
  by (simp add: unique_blocks_def run_simps)

section \<open>Replacing the content in place\<close>




section \<open>Failure\<close>




section \<open>The style text depends on the selector only\<close>

text \<open>
  Every substitution of the template names \<^verbatim>\<open>selector\<close>, which the call binds.
\<close>

lemma eval_rule_parts:
  "eval_template ((''selector'', s) # outer) (rule_parts r @ ps) =
     (case eval_template ((''selector'', s) # outer) ps of
        Inl e \<Rightarrow> Inl e
      | Inr t \<Rightarrow> Inr (rule_text s r @ t))"
  by (simp add: rule_parts_def rule_text_def split: sum.splits)

lemma eval_rules:
  "eval_template ((''selector'', s) # outer) (concat (map rule_parts rs)) =
     Inr (concat (map (rule_text s) rs))"
  by (induction rs) (simp_all add: eval_rule_parts)

lemma outlineCSS_text: "outlineCSS outer s = Inr (outline_text s)"
  by (simp add: outlineCSS_def outlineCSS_template_def outline_text_def eval_rules)

text \<open>
  Claim C9. For every selector \<open>s\<close>, two calls of \<open>outlineCSS\<close> return the same text
  whatever the scopes around the two calls bind: the call never throws, and its result
  is the text of the rules for \<open>s\<close>, which is made of \<open>s\<close> and the rule table alone.
\<close>

theorem outlineCSS_pure:
  "outlineCSS outer1 s = outlineCSS outer2 s \<and> outlineCSS outer1 s = Inr (outline_text s)"
  by (simp add: outlineCSS_def outlineCSS_template_def outline_text_def eval_rules)

section \<open>The decorator does not reach the helpers\<close>

text \<open>
  When neither the global object nor an element of the document binds \<^verbatim>\<open>isActive\<close>,
  a call of \<open>withGlobals\<close> throws a \<^verbatim>\<open>ReferenceError\<close> and leaves the document as it is,
  whatever the toggle and the context.
\<close>

lemma withGlobals_unbound:
  "map_of window ''isActive'' = None \<Longrightarrow> \<not> named_element ''isActive'' d \<Longrightarrow>
   withGlobals B window outlineActive ctx d = (Throw ReferenceError, d)"
  by (simp add: withGlobals_def outlineStyles_def outlineCSS_text withGlobals_scope_def
      read_identifier_def global_property_def)

text \<open>
  Claim C8 says that after the effect a block under the context's key exists exactly when
  the toggle is active. The code with the toggle set, in story view, on the empty
  document and a global object without \<^verbatim>\<open>isActive\<close>: the call throws, and no block exists
  under \<^verbatim>\<open>addon-outline\<close>.
\<close>

theorem withGlobals_throws:
  "withGlobals example_browser [] True \<lparr>viewMode = ''story'', story_id = ''s1''\<rparr> empty_document =
     (Throw ReferenceError, empty_document) \<and>
   blocks ''addon-outline''
     (snd (withGlobals example_browser [] True \<lparr>viewMode = ''story'', story_id = ''s1''\<rparr>
        empty_document)) = [] \<and>
   selectorId \<lparr>viewMode = ''story'', story_id = ''s1''\<rparr> = ''addon-outline''"
  by (simp add: withGlobals_def outlineStyles_def outlineCSS_text withGlobals_scope_def
      read_identifier_def global_property_def named_element_def selectorId_def isInDocs_def
      run_simps)

section \<open>One key or a list of keys\<close>

text \<open>
  A call of \<open>clearStyle\<close> leaves the nodes as they are or cuts one element with its
  descendants out of them, and never the first node.
\<close>

lemma clearStyle_cases:
  obtains "nodes (snd (clearStyle k d)) = nodes d"
  | pre e sub post where "nodes d = pre @ e # sub @ post" "pre \<noteq> []"
      "nodes (snd (clearStyle k d)) = pre @ post"
proof (cases "getElementById k d")
  case None
  then show ?thesis using that(1) by (simp add: clearStyle_absent)
next
  case (Some loc)
  obtain pre e sub post where loc: "loc = (pre, e, sub, post)" by (cases loc) auto
  show ?thesis
  proof (cases "parentElement loc")
    case None
    with Some show ?thesis using that(1) by (simp add: clearStyle_root)
  next
    case P: (Some p)
    then have "pre \<noteq> []" using loc by (auto simp: parentElement_def)
    moreover have "nodes d = pre @ e # sub @ post"
      using getElementById_SomeD(3) Some loc by blast
    moreover have "nodes (snd (clearStyle k d)) = pre @ post"
      using Some loc P by (simp add: clearStyle_removes)
    ultimately show ?thesis using that(2) by blast
  qed
qed

lemma inner_blocks_clearStyle:
  assumes "length (blocks k d) \<le> 1" and "inner_blocks k d"
  shows "length (blocks k (snd (clearStyle k' d))) \<le> 1 \<and> inner_blocks k (snd (clearStyle k' d))"
proof (cases k' d rule: clearStyle_cases)
  case 1
  with assms show ?thesis by (simp add: blocks_def inner_blocks_def)
next
  case (2 pre e sub post)
  with assms show ?thesis
    by (cases pre) (auto simp: blocks_def inner_blocks_def split: if_splits)
qed

lemma clearStyle_own:
  assumes "k \<noteq> []" and "length (blocks k d) \<le> 1" and "inner_blocks k d"
  shows "blocks k (snd (clearStyle k d)) = []"
proof (cases "getElementById k d")
  case None
  with assms(1) show ?thesis by (simp add: clearStyle_absent getElementById_None_iff)
next
  case (Some loc)
  obtain pre e sub post where loc: "loc = (pre, e, sub, post)" by (cases loc) auto
  with Some have g: "getElementById k d = Some (pre, e, sub, post)" by simp
  note b = blocks_split(1) [OF g]
  with assms(2) have l: "later_blocks k d = []" by simp
  from b assms(3) have "depth (hd (nodes d)) < depth e" by (simp add: inner_blocks_def)
  then have "pre \<noteq> [] \<and> depth (hd pre) < depth e"
    unfolding getElementById_SomeD(3) [OF g] by (cases pre) auto
  then have "parentElement (pre, e, sub, post) \<noteq> None"
    by (cases pre) (auto simp: parentElement_def find_None_iff)
  with blocks_clearStyle_removed [OF g] l show ?thesis by simp
qed

lemma blocks_empty_fold:
  "blocks k d = [] \<Longrightarrow> blocks k (fold (\<lambda>k s. snd (clearStyle k s)) ks d) = []"
proof (induction ks arbitrary: d)
  case Nil
  then show ?case by simp
next
  case (Cons k' ks)
  from blocks_clearStyle_le [of k k' d] Cons.prems have "blocks k (snd (clearStyle k' d)) = []"
    by simp
  with Cons.IH show ?case by simp
qed

lemma blocks_fold_clearStyle:
  assumes "k \<in> set ks" and "k \<noteq> []" and "length (blocks k d) \<le> 1" and "inner_blocks k d"
  shows "blocks k (fold (\<lambda>k s. snd (clearStyle k s)) ks d) = []"
  using assms
proof (induction ks arbitrary: d)
  case Nil
  then show ?case by simp
next
  case (Cons k' ks)
  show ?case
  proof (cases "k' = k")
    case True
    with clearStyle_own [OF Cons.prems(2,3,4)] show ?thesis by (simp add: blocks_empty_fold)
  next
    case False
    with Cons.prems(1) have "k \<in> set ks" by simp
    from Cons.IH [OF this Cons.prems(2)] inner_blocks_clearStyle [OF Cons.prems(3,4), of k']
    show ?thesis by simp
  qed
qed

text \<open>
  Claim C10, as amended. \<open>clearStyles\<close> on a list of keys is \<open>clearStyles\<close> on each key,
  one after the other in the order of the list: it returns normally, and its document is
  the one reached by calling \<open>clearStyles\<close> on each single key in turn. \<open>clearStyles\<close> on
  one key is \<open>clearStyles\<close> on the list of just that key. A call on one key removes the
  element that \<open>getElementById\<close> finds, with its descendants, unless that is the document
  element; the blocks left under the key are those outside that element. So after the
  call on a list no block is left under a non-empty key of the list that had at most
  one block, none of them the document element.
\<close>

theorem clearStyles_each_key:
  "clearStyles (Many ks) d = forEach (\<lambda>k. clearStyles (Single k)) ks d \<and>
   clearStyles (Many ks) d = (Normal, fold (\<lambda>k s. snd (clearStyles (Single k) s)) ks d) \<and>
   clearStyles (Single k) d = clearStyles (Many [k]) d \<and>
   (\<forall>pre e sub post.
      getElementById k d = Some (pre, e, sub, post) \<longrightarrow>
      parentElement (pre, e, sub, post) \<noteq> None \<longrightarrow>
      clearStyles (Single k) d =
        (Normal, d\<lparr>nodes := pre @ post, mutations := mutations d @ [Removed (ref e)]\<rparr>) \<and>
      blocks k (snd (clearStyles (Single k) d)) = later_blocks k d) \<and>
   (k \<in> set ks \<longrightarrow> k \<noteq> [] \<longrightarrow> length (blocks k d) \<le> 1 \<longrightarrow> inner_blocks k d \<longrightarrow>
      blocks k (snd (clearStyles (Many ks) d)) = [])"
proof -
  have e: "(\<lambda>k. clearStyles (Single k)) = clearStyle"
    by (simp add: fun_eq_iff clearStyles_Single)
  have a: "clearStyles (Many ks) d = forEach (\<lambda>k. clearStyles (Single k)) ks d"
    "clearStyles (Many ks) d = (Normal, fold (\<lambda>k s. snd (clearStyles (Single k) s)) ks d)"
    "clearStyles (Single k) d = clearStyles (Many [k]) d"
    unfolding e by (simp_all add: clearStyles_def forEach_clearStyle del: forEach.simps)
  have b: "\<forall>pre e sub post.
      getElementById k d = Some (pre, e, sub, post) \<longrightarrow>
      parentElement (pre, e, sub, post) \<noteq> None \<longrightarrow>
      clearStyles (Single k) d =
        (Normal, d\<lparr>nodes := pre @ post, mutations := mutations d @ [Removed (ref e)]\<rparr>) \<and>
      blocks k (snd (clearStyles (Single k) d)) = later_blocks k d"
    using blocks_clearStyle_removed [of k d]
    by (auto simp: clearStyles_Single clearStyle_removes)
  have c: "k \<in> set ks \<longrightarrow> k \<noteq> [] \<longrightarrow> length (blocks k d) \<le> 1 \<longrightarrow> inner_blocks k d \<longrightarrow>
      blocks k (snd (clearStyles (Many ks) d)) = []"
    by (simp add: clearStyles_def forEach_clearStyle blocks_fold_clearStyle del: forEach.simps)
  from a b c show ?thesis by blast
qed

text \<open>
  Witness for claim C10: a document that holds a block under \<^verbatim>\<open>k\<close>, and the list
  \<^verbatim>\<open>["j", "k"]\<close>.
\<close>

theorem clearStyles_each_key_witness:
  "getElementById ''k'' headless_block_document =
     Some ([html_node 0 0 ''html'' None, html_node 1 1 ''body'' None],
           html_node 2 2 ''style'' (Some ''k''), [text_node 3 3 ''x''], []) \<and>
   parentElement ([html_node 0 0 ''html'' None, html_node 1 1 ''body'' None],
           html_node 2 2 ''style'' (Some ''k''), [text_node 3 3 ''x''], []) \<noteq> None \<and>
   clearStyles (Single ''k'') headless_block_document =
     (Normal,
      headless_block_document
        \<lparr>nodes := [html_node 0 0 ''html'' None, html_node 1 1 ''body'' None] @ [],
         mutations := mutations headless_block_document @
           [Removed (ref (html_node 2 2 ''style'' (Some ''k'')))]\<rparr>) \<and>
   ''k'' \<in> set [''j'', ''k''] \<and> ''k'' \<noteq> [] \<and> length (blocks ''k'' headless_block_document) \<le> 1 \<and>
   inner_blocks ''k'' headless_block_document \<and>
   blocks ''k'' (snd (clearStyles (Many [''j'', ''k'']) headless_block_document)) = []"
proof -
  let ?pre = "[html_node 0 0 ''html'' None, html_node 1 1 ''body'' None]"
  let ?e = "html_node 2 2 ''style'' (Some ''k'')"
  have h: "getElementById ''k'' headless_block_document = Some (?pre, ?e, [text_node 3 3 ''x''], [])"
    "parentElement (?pre, ?e, [text_node 3 3 ''x''], []) \<noteq> None"
    "''k'' \<in> set [''j'', ''k'']" "''k'' \<noteq> []" "length (blocks ''k'' headless_block_document) \<le> 1"
    "inner_blocks ''k'' headless_block_document"
    by (simp_all add: run_simps inner_blocks_def)
  from clearStyles_each_key [of "[''j'', ''k'']" headless_block_document "''k''"] h
  show ?thesis by blast
qed

text \<open>
  Counterexample for claim C10 as stated (the block of each key is removed).
  \<^item> The block under the empty key stays: \<open>clearStyles\<close> on the list of the empty key
    changes nothing.
  \<^item> On \<^verbatim>\<open><html id="k">\<close> the block is the document element, and nothing is removed.
  \<^item> Of two elements with id \<^verbatim>\<open>k\<close> one is left.
\<close>

theorem clearStyles_each_key_counterexample:
  "map ref (blocks [] empty_key_document) = [3] \<and>
   clearStyles (Many [[]]) empty_key_document = (Normal, empty_key_document) \<and>
   map ref (blocks ''k'' root_block_document) = [0] \<and>
   clearStyles (Many [''k'']) root_block_document = (Normal, root_block_document) \<and>
   map ref (blocks ''k'' two_blocks_document) = [3, 5] \<and>
   map ref (blocks ''k'' (snd (clearStyles (Many [''k'']) two_blocks_document))) = [5]"
  by (simp add: run_simps)

end
